theory Spec2Isabelle
  imports Complex_Main "HOL-Library.Product_Lexorder" "HOL-Library.Multiset"
    "HOL-Library.Monad_Syntax"
begin

section \<open>Data model (models.py)\<close>

text \<open>
  \<^verbatim>\<open>TaskStatus\<close> is the enumeration of models.py. A \<^verbatim>\<open>datetime\<close> is modelled as
  the number of microseconds since the epoch (naive datetimes are totally ordered and
  have microsecond resolution); a Python \<^verbatim>\<open>float\<close> threshold is modelled as the
  rational number it denotes.
\<close>

datatype TaskStatus = PENDING | RUNNING | COMPLETED | FAILED | CANCELLED

type_synonym datetime = int

record GPURequirement =
  gpu_ids :: "int list option"
  min_free_memory_gb :: rat
  max_util_percent :: rat
  gpu_count :: int

record Task =
  tid :: string
  name :: string
  command :: string
  working_dir :: string
  env :: "(string \<times> string) list"
  requirements :: GPURequirement
  status :: TaskStatus
  priority :: int
  created_at :: datetime
  started_at :: "datetime option"
  finished_at :: "datetime option"
  assigned_gpus :: "int list"
  pid :: "int option"
  exit_code :: "int option"
  error_message :: string
  log_file :: string

text \<open>The dataclass defaults of \<^verbatim>\<open>GPURequirement\<close> and \<^verbatim>\<open>Task\<close>; the two default
  factories of \<^verbatim>\<open>Task\<close> (a fresh id, the current time) are parameters.\<close>

definition GPURequirement_default :: GPURequirement where
  "GPURequirement_default =
     \<lparr>gpu_ids = None, min_free_memory_gb = 0, max_util_percent = 100, gpu_count = 1\<rparr>"

definition Task_default :: "string \<Rightarrow> datetime \<Rightarrow> Task" where
  "Task_default i now =
     \<lparr>tid = i, name = [], command = [], working_dir = [], env = [],
      requirements = GPURequirement_default, status = PENDING, priority = 0,
      created_at = now, started_at = None, finished_at = None, assigned_gpus = [],
      pid = None, exit_code = None, error_message = [], log_file = []\<rparr>"

definition is_terminal :: "TaskStatus \<Rightarrow> bool" where
  "is_terminal st = (st = COMPLETED \<or> st = FAILED \<or> st = CANCELLED)"

section \<open>Task store (queue\_manager.py)\<close>

text \<open>
  The store is the list of records held in \<^verbatim>\<open>tasks.json\<close>. Every operation of
  \<^verbatim>\<open>QueueManager\<close> loads the list, works on it and, when it mutates, saves it; the
  model takes the loaded list and returns the saved one beside the Python return value.
\<close>

definition add_task :: "Task list \<Rightarrow> Task \<Rightarrow> Task list \<times> string" where
  "add_task tasks task = (tasks @ [task], tid task)"

fun get_task :: "Task list \<Rightarrow> string \<Rightarrow> Task option" where
  "get_task [] task_id = None"
| "get_task (t # ts) task_id = (if tid t = task_id then Some t else get_task ts task_id)"

fun update_task :: "Task list \<Rightarrow> Task \<Rightarrow> Task list" where
  "update_task [] task = []"
| "update_task (t # ts) task =
     (if tid t = tid task then task # ts else t # update_task ts task)"

definition remove_task :: "Task list \<Rightarrow> string \<Rightarrow> Task list \<times> bool" where
  "remove_task tasks task_id =
     (let kept = filter (\<lambda>t. tid t \<noteq> task_id) tasks
      in if length kept < length tasks then (kept, True) else (tasks, False))"

definition get_all_tasks :: "Task list \<Rightarrow> Task list" where
  "get_all_tasks tasks = tasks"

definition pending_key :: "Task \<Rightarrow> int \<times> datetime" where
  "pending_key x = (- priority x, created_at x)"

definition get_pending_tasks :: "Task list \<Rightarrow> Task list" where
  "get_pending_tasks tasks =
     sort_key pending_key (filter (\<lambda>t. status t = PENDING) tasks)"

definition get_running_tasks :: "Task list \<Rightarrow> Task list" where
  "get_running_tasks tasks = filter (\<lambda>t. status t = RUNNING) tasks"

definition get_tasks_by_status :: "Task list \<Rightarrow> TaskStatus \<Rightarrow> Task list" where
  "get_tasks_by_status tasks st = filter (\<lambda>t. status t = st) tasks"

definition cancel_task :: "datetime \<Rightarrow> Task list \<Rightarrow> string \<Rightarrow> Task list \<times> bool" where
  "cancel_task now tasks task_id =
     (case get_task tasks task_id of
        None \<Rightarrow> (tasks, False)
      | Some task \<Rightarrow>
          if status task = PENDING
          then (update_task tasks (task\<lparr>status := CANCELLED, finished_at := Some now\<rparr>), True)
          else (tasks, False))"

text \<open>\<^verbatim>\<open>timedelta(days=1)\<close> in microseconds.\<close>

definition day_us :: int where
  "day_us = 86400000000"

definition cleanup_keep :: "datetime \<Rightarrow> Task \<Rightarrow> bool" where
  "cleanup_keep cutoff t =
     (status t \<notin> {COMPLETED, FAILED, CANCELLED}
      \<or> (case finished_at t of None \<Rightarrow> False | Some f \<Rightarrow> f > cutoff))"

text \<open>
  \<^verbatim>\<open>datetime.min\<close> and \<^verbatim>\<open>datetime.max\<close> in microseconds since the epoch, and the largest
  magnitude \<^verbatim>\<open>timedelta(days=...)\<close> accepts. The cutoff
  \<^verbatim>\<open>datetime.now() - timedelta(days=max_age_days)\<close> raises \<^verbatim>\<open>OverflowError\<close> when the
  number of days is beyond that magnitude or the difference leaves the range of
  \<^verbatim>\<open>datetime\<close>; \<open>None\<close> is that exception.
\<close>

definition datetime_min_us :: int where
  "datetime_min_us = - 62135596800000000"

definition datetime_max_us :: int where
  "datetime_max_us = 253402300799999999"

definition timedelta_max_days :: int where
  "timedelta_max_days = 999999999"

definition cleanup_cutoff :: "datetime \<Rightarrow> int \<Rightarrow> datetime option" where
  "cleanup_cutoff now max_age_days =
     (if \<bar>max_age_days\<bar> > timedelta_max_days then None
      else let cutoff = now - max_age_days * day_us
           in if cutoff < datetime_min_us \<or> datetime_max_us < cutoff then None
              else Some cutoff)"

text \<open>\<^verbatim>\<open>cleanup_old_tasks\<close> returns the store as it is afterwards and the Python return
  value; when the cutoff raises, nothing was saved and nothing is returned.\<close>

definition cleanup_old_tasks ::
  "datetime \<Rightarrow> Task list \<Rightarrow> int \<Rightarrow> Task list \<times> int option" where
  "cleanup_old_tasks now tasks max_age_days =
     (case cleanup_cutoff now max_age_days of
        None \<Rightarrow> (tasks, None)
      | Some cutoff \<Rightarrow>
          (let original_len = int (length tasks);
               kept = filter (cleanup_keep cutoff) tasks;
               removed = original_len - int (length kept)
           in if removed > 0 then (kept, Some removed) else (tasks, Some removed)))"

text \<open>The cleanup rule as the specification words it: a record goes when it is terminal
  and its \<^verbatim>\<open>finished_at\<close> is older than the cutoff. Only used to compare with
  \<^const>\<open>cleanup_old_tasks\<close>.\<close>

definition spec_cleanup :: "datetime \<Rightarrow> Task list \<Rightarrow> int \<Rightarrow> Task list \<times> int" where
  "spec_cleanup now tasks days =
     (filter (\<lambda>t. \<not> (is_terminal (status t)
                 \<and> (case finished_at t of None \<Rightarrow> False | Some f \<Rightarrow> f < now - days * day_us))) tasks,
      int (length (filter (\<lambda>t. is_terminal (status t)
                 \<and> (case finished_at t of None \<Rightarrow> False | Some f \<Rightarrow> f < now - days * day_us)) tasks)))"

section \<open>GPU probe (gpu\_monitor.py)\<close>

record GPUStatus =
  index :: int
  gname :: string
  total_memory_mb :: int
  used_memory_mb :: int
  free_memory_mb :: int
  utilization_percent :: int
  temperature :: int

definition free_memory_gb :: "GPUStatus \<Rightarrow> rat" where
  "free_memory_gb g = of_int (free_memory_mb g) / 1024"

text \<open>
  What the vendor library answers at one moment: whether \<^verbatim>\<open>nvmlInit\<close> succeeds, the
  device count (\<open>None\<close> when \<^verbatim>\<open>nvmlDeviceGetCount\<close> raises \<^verbatim>\<open>NVMLError\<close>) and the
  readings of each device (\<open>None\<close> when one of the queries for that device raises
  \<^verbatim>\<open>NVMLError\<close>). Memory sizes are in bytes.
\<close>

record nvml_device =
  nv_name :: string
  nv_total :: nat
  nv_used :: nat
  nv_free :: nat
  nv_util :: int
  nv_temp :: int

record nvml =
  nv_init_ok :: bool
  nv_count :: "nat option"
  nv_device :: "nat \<Rightarrow> nvml_device option"

text \<open>In the next three functions \<open>None\<close> is a raised \<^verbatim>\<open>NVMLError\<close>.\<close>

definition get_gpu_count :: "nvml \<Rightarrow> nat option" where
  "get_gpu_count nv =
     (if \<not> nv_init_ok nv then None
      else case nv_count nv of None \<Rightarrow> Some 0 | Some n \<Rightarrow> Some n)"

definition get_gpu_status :: "nvml \<Rightarrow> nat \<Rightarrow> GPUStatus option" where
  "get_gpu_status nv i =
     (if \<not> nv_init_ok nv then None
      else case nv_device nv i of
        None \<Rightarrow> None
      | Some r \<Rightarrow>
          Some \<lparr>index = int i, gname = nv_name r,
                total_memory_mb = int (nv_total r div (1024 * 1024)),
                used_memory_mb = int (nv_used r div (1024 * 1024)),
                free_memory_mb = int (nv_free r div (1024 * 1024)),
                utilization_percent = nv_util r, temperature = nv_temp r\<rparr>)"

definition get_all_gpu_status :: "nvml \<Rightarrow> GPUStatus list option" where
  "get_all_gpu_status nv =
     (case get_gpu_count nv of
        None \<Rightarrow> None
      | Some n \<Rightarrow> those (map (get_gpu_status nv) [0..<n]))"

text \<open>The test \<^verbatim>\<open>requirements.gpu_ids and gpu.index not in requirements.gpu_ids\<close>: a
  list that is \<^verbatim>\<open>None\<close> or empty is falsy.\<close>

definition excluded_by_ids :: "GPURequirement \<Rightarrow> GPUStatus \<Rightarrow> bool" where
  "excluded_by_ids req gpu =
     (case gpu_ids req of None \<Rightarrow> False | Some ids \<Rightarrow> ids \<noteq> [] \<and> index gpu \<notin> set ids)"

text \<open>The loop of \<^verbatim>\<open>check_requirements\<close> over the snapshot, with its three
  \<^verbatim>\<open>continue\<close> branches; the candidate list is the accumulator.\<close>

fun candidates_loop :: "GPURequirement \<Rightarrow> GPUStatus list \<Rightarrow> int list \<Rightarrow> int list" where
  "candidates_loop req [] candidates = candidates"
| "candidates_loop req (gpu # gpus) candidates =
     (if excluded_by_ids req gpu then candidates_loop req gpus candidates
      else if free_memory_gb gpu < min_free_memory_gb req then candidates_loop req gpus candidates
      else if of_int (utilization_percent gpu) > max_util_percent req
        then candidates_loop req gpus candidates
      else candidates_loop req gpus (candidates @ [index gpu]))"

text \<open>The slice \<^verbatim>\<open>xs[:n]\<close>: a negative \<open>n\<close> counts from the end.\<close>

definition py_slice_to :: "'a list \<Rightarrow> int \<Rightarrow> 'a list" where
  "py_slice_to xs n =
     (if 0 \<le> n then take (nat n) xs else take (nat (int (length xs) + n)) xs)"

definition check_requirements :: "nvml \<Rightarrow> GPURequirement \<Rightarrow> int list option" where
  "check_requirements nv req =
     (case get_all_gpu_status nv of
        None \<Rightarrow> None
      | Some all_gpus \<Rightarrow>
          (let candidates = candidates_loop req all_gpus []
           in if int (length candidates) \<ge> gpu_count req
              then Some (py_slice_to candidates (gpu_count req))
              else None))"

text \<open>The matching rule as the specification words it: with \<^verbatim>\<open>gpu_ids\<close> set (even to
  the empty list) only the listed indices are admissible, and no match is the empty list.
  Only used to compare with \<^const>\<open>check_requirements\<close>.\<close>

definition spec_match :: "GPUStatus list \<Rightarrow> GPURequirement \<Rightarrow> int list" where
  "spec_match gpus req =
     (let survivors =
        map index (filter (\<lambda>g. (case gpu_ids req of None \<Rightarrow> True | Some ids \<Rightarrow> index g \<in> set ids)
                           \<and> \<not> free_memory_gb g < min_free_memory_gb req
                           \<and> \<not> of_int (utilization_percent g) > max_util_percent req) gpus)
      in if int (length survivors) \<ge> gpu_count req then take (nat (gpu_count req)) survivors
         else [])"

section \<open>Runner (task\_runner.py)\<close>

text \<open>
  The runner's process table maps a task id to the child handle it holds; a handle is
  identified with the pid of its child. What the operating system, the clock and the
  vendor library answer during one operation of the daemon is an environment:
  \<^item> \<open>poll h\<close>: \<^verbatim>\<open>Popen.poll()\<close> of the handle \<open>h\<close>;
  \<^item> \<open>kill0 p\<close>: \<^verbatim>\<open>os.kill(p, 0)\<close> returns (the process exists);
  \<^item> \<open>killpg p\<close>: the outcome of \<^verbatim>\<open>os.killpg(os.getpgid(p), SIGTERM)\<close>;
  \<^item> \<open>clock i\<close>: \<^verbatim>\<open>datetime.now()\<close> read while the task with id \<open>i\<close> is handled;
  \<^item> \<open>probe i\<close>: the vendor library's answers while the task with id \<open>i\<close> is matched
    (the probe is consulted again for each pending task);
  \<^item> \<open>spawn task gpus\<close>: the outcome of preparing the log file and \<^verbatim>\<open>Popen\<close>.
\<close>

datatype kill_result = Killed | NoSuchProcess | NotPermitted

datatype spawn_result =
    Spawned int
  | FailedBeforeLog string
  | FailedAfterLog string

record environment =
  poll :: "int \<Rightarrow> int option"
  kill0 :: "int \<Rightarrow> bool"
  killpg :: "int \<Rightarrow> kill_result"
  clock :: "string \<Rightarrow> datetime"
  probe :: "string \<Rightarrow> nvml"
  spawn :: "Task \<Rightarrow> int list \<Rightarrow> spawn_result"
  logs_dir :: string

type_synonym process_table = "string \<Rightarrow> int option"

definition task_log_path :: "environment \<Rightarrow> Task \<Rightarrow> string" where
  "task_log_path e task = logs_dir e @ ''/task_'' @ tid task @ ''.log''"

text \<open>\<^verbatim>\<open>start_task\<close> mutates the task it is given and the process table, and returns
  whether the spawn succeeded. An exception before \<^verbatim>\<open>task.log_file\<close> is assigned leaves
  that field as it was; any later one finds it set.\<close>

definition start_task ::
  "environment \<Rightarrow> process_table \<Rightarrow> Task \<Rightarrow> int list \<Rightarrow> Task \<times> process_table \<times> bool" where
  "start_task e procs task gpus =
     (case spawn e task gpus of
        Spawned p \<Rightarrow>
          (task\<lparr>log_file := task_log_path e task, pid := Some p, assigned_gpus := gpus,
                status := RUNNING, started_at := Some (clock e (tid task))\<rparr>,
           procs(tid task := Some p), True)
      | FailedBeforeLog msg \<Rightarrow>
          (task\<lparr>status := FAILED, error_message := msg,
                finished_at := Some (clock e (tid task))\<rparr>, procs, False)
      | FailedAfterLog msg \<Rightarrow>
          (task\<lparr>log_file := task_log_path e task, status := FAILED, error_message := msg,
                finished_at := Some (clock e (tid task))\<rparr>, procs, False))"

definition check_task ::
  "environment \<Rightarrow> process_table \<Rightarrow> Task \<Rightarrow> int option \<times> process_table" where
  "check_task e procs task =
     (case procs (tid task) of
        Some process \<Rightarrow>
          (case poll e process of
             None \<Rightarrow> (None, procs)
           | Some code \<Rightarrow> (Some code, procs(tid task := None)))
      | None \<Rightarrow>
          (case pid task of
             None \<Rightarrow> (Some (- 1), procs)
           | Some p \<Rightarrow>
               if p \<noteq> 0 then (if kill0 e p then (None, procs) else (Some (- 1), procs))
               else (Some (- 1), procs)))"

definition kill_task ::
  "environment \<Rightarrow> process_table \<Rightarrow> Task \<Rightarrow> process_table \<times> bool" where
  "kill_task e procs task =
     (case procs (tid task) of
        Some process \<Rightarrow>
          (case killpg e process of
             NotPermitted \<Rightarrow> (procs, False)
           | _ \<Rightarrow> (procs(tid task := None), True))
      | None \<Rightarrow>
          (case pid task of
             None \<Rightarrow> (procs, False)
           | Some p \<Rightarrow> (procs, p \<noteq> 0 \<and> killpg e p = Killed)))"

section \<open>Scheduler (scheduler.py)\<close>

text \<open>Python's \<^verbatim>\<open>str\<close> of an integer, for the f-string of the failure message.\<close>

definition digit_char :: "nat \<Rightarrow> char" where
  "digit_char n = ''0123456789'' ! n"

function str_nat :: "nat \<Rightarrow> string" where
  "str_nat n = (if n < 10 then [digit_char n] else str_nat (n div 10) @ [digit_char (n mod 10)])"
  by pat_completeness auto
termination
  by (relation "measure (\<lambda>n. n)") auto

declare str_nat.simps [simp del]

definition str_int :: "int \<Rightarrow> string" where
  "str_int i = (if i < 0 then CHR ''-'' # str_nat (nat (- i)) else str_nat (nat i))"

text \<open>The daemon's state: the store on disk and the runner's process table.\<close>

record daemon =
  store :: "Task list"
  running_processes :: process_table

text \<open>The body of the loop of \<^verbatim>\<open>_check_running_tasks\<close>: the record as the scheduler
  rewrites it for an exit code, and one iteration for one task of the snapshot.\<close>

definition reaped :: "environment \<Rightarrow> Task \<Rightarrow> int \<Rightarrow> Task" where
  "reaped e task code =
     (let task1 = task\<lparr>exit_code := Some code, finished_at := Some (clock e (tid task))\<rparr>
      in if code = 0 then task1\<lparr>status := COMPLETED\<rparr>
         else task1\<lparr>status := FAILED,
                    error_message := ''Process exited with code '' @ str_int code\<rparr>)"

definition reap_step :: "environment \<Rightarrow> daemon \<Rightarrow> Task \<Rightarrow> daemon" where
  "reap_step e d task =
     (case check_task e (running_processes d) task of
        (None, procs) \<Rightarrow> d\<lparr>running_processes := procs\<rparr>
      | (Some code, procs) \<Rightarrow>
          \<lparr>store = update_task (store d) (reaped e task code), running_processes = procs\<rparr>)"

definition check_running_tasks :: "environment \<Rightarrow> daemon \<Rightarrow> daemon" where
  "check_running_tasks e d = foldl (reap_step e) d (get_running_tasks (store d))"

text \<open>The loop of \<^verbatim>\<open>_schedule_pending_tasks\<close> over the sorted snapshot of pending
  tasks. The running count is read from the store again before each task; an empty or
  absent match leaves the task alone.\<close>

fun admit_loop :: "environment \<Rightarrow> int \<Rightarrow> daemon \<Rightarrow> Task list \<Rightarrow> daemon" where
  "admit_loop e max_concurrent_tasks d [] = d"
| "admit_loop e max_concurrent_tasks d (task # pending) =
     (if int (length (get_running_tasks (store d))) \<ge> max_concurrent_tasks then d
      else case check_requirements (probe e (tid task)) (requirements task) of
        None \<Rightarrow> admit_loop e max_concurrent_tasks d pending
      | Some available_gpus \<Rightarrow>
          if available_gpus = [] then admit_loop e max_concurrent_tasks d pending
          else (case start_task e (running_processes d) task available_gpus of
                  (task', procs, ok) \<Rightarrow>
                    admit_loop e max_concurrent_tasks
                      \<lparr>store = update_task (store d) task', running_processes = procs\<rparr>
                      pending))"

definition schedule_pending_tasks :: "environment \<Rightarrow> int \<Rightarrow> daemon \<Rightarrow> daemon" where
  "schedule_pending_tasks e max_concurrent_tasks d =
     (if int (length (get_running_tasks (store d))) \<ge> max_concurrent_tasks then d
      else let pending_tasks = get_pending_tasks (store d)
           in if pending_tasks = [] then d
              else admit_loop e max_concurrent_tasks d pending_tasks)"

definition tick :: "environment \<Rightarrow> int \<Rightarrow> daemon \<Rightarrow> daemon" where
  "tick e max_concurrent_tasks d =
     schedule_pending_tasks e max_concurrent_tasks (check_running_tasks e d)"

section \<open>Request handlers (\_\_main\_\_.py)\<close>

text \<open>The parameters of a \<^verbatim>\<open>submit\<close> request after the handler's defaults have been
  filled in.\<close>

record submit_params =
  p_name :: string
  p_command :: string
  p_working_dir :: string
  p_env :: "(string \<times> string) list"
  p_gpu_ids :: "int list option"
  p_min_free_memory_gb :: rat
  p_max_util_percent :: rat
  p_gpu_count :: int
  p_priority :: int

definition handle_submit ::
  "string \<Rightarrow> datetime \<Rightarrow> submit_params \<Rightarrow> daemon \<Rightarrow> daemon \<times> string" where
  "handle_submit new_id now params d =
     (let req = \<lparr>gpu_ids = p_gpu_ids params, min_free_memory_gb = p_min_free_memory_gb params,
                 max_util_percent = p_max_util_percent params, gpu_count = p_gpu_count params\<rparr>;
          task = (Task_default new_id now)
                   \<lparr>name := p_name params, command := p_command params,
                    working_dir := p_working_dir params, env := p_env params,
                    requirements := req, priority := p_priority params\<rparr>
      in case add_task (store d) task of
           (tasks, task_id) \<Rightarrow> (d\<lparr>store := tasks\<rparr>, task_id))"

definition handle_cancel :: "environment \<Rightarrow> daemon \<Rightarrow> string \<Rightarrow> daemon \<times> bool" where
  "handle_cancel e d task_id =
     (case get_task (store d) task_id of
        None \<Rightarrow> (d, False)
      | Some task \<Rightarrow>
          if status task = RUNNING
          then (case kill_task e (running_processes d) task of
                  (procs, killed) \<Rightarrow>
                    (\<lparr>store = update_task (store d)
                               (task\<lparr>status := CANCELLED, finished_at := Some (clock e task_id)\<rparr>),
                      running_processes = procs\<rparr>, True))
          else (case cancel_task (clock e task_id) (store d) task_id of
                  (tasks, success) \<Rightarrow> (d\<lparr>store := tasks\<rparr>, success)))"

text \<open>
  The states reached from an empty store when \<^verbatim>\<open>submit\<close> requests, \<^verbatim>\<open>cancel\<close>
  requests, scheduler ticks and cleanups of the store are run one after another, none
  overlapping another. The daemon does not enforce this: its request handlers run on
  threads of their own and take neither the scheduler's lock nor one file lock around a
  load and the save that follows it. The cap of the configuration is fixed.
\<close>

inductive sequentially_reachable :: "int \<Rightarrow> daemon \<Rightarrow> bool" for max_concurrent_tasks :: int where
  init: "sequentially_reachable max_concurrent_tasks \<lparr>store = [], running_processes = (\<lambda>i. None)\<rparr>"
| submit: "sequentially_reachable max_concurrent_tasks d \<Longrightarrow>
     sequentially_reachable max_concurrent_tasks (fst (handle_submit new_id now params d))"
| cancel: "sequentially_reachable max_concurrent_tasks d \<Longrightarrow>
     sequentially_reachable max_concurrent_tasks (fst (handle_cancel e d task_id))"
| tick: "sequentially_reachable max_concurrent_tasks d \<Longrightarrow>
     sequentially_reachable max_concurrent_tasks (tick e max_concurrent_tasks d)"
| cleanup: "sequentially_reachable max_concurrent_tasks d \<Longrightarrow>
     sequentially_reachable max_concurrent_tasks (d\<lparr>store := fst (cleanup_old_tasks now (store d) days)\<rparr>)"

section \<open>Serialisation (models.py)\<close>

text \<open>
  The values a task dictionary holds, as \<^verbatim>\<open>json.dump\<close> writes and \<^verbatim>\<open>json.load\<close> reads
  them: \<^verbatim>\<open>None\<close>, strings, integers, floats, lists, and dictionaries with string keys
  (in insertion order).
\<close>

datatype json =
    JNull
  | JStr string
  | JInt int
  | JNum rat
  | JList "json list"
  | JObj "(string \<times> json) list"

text \<open>\<^verbatim>\<open>data.get(key, default)\<close> and the truth value Python gives a dictionary value.\<close>

definition dict_get :: "(string \<times> json) list \<Rightarrow> string \<Rightarrow> json \<Rightarrow> json" where
  "dict_get data k dflt = (case map_of data k of None \<Rightarrow> dflt | Some v \<Rightarrow> v)"

fun py_truthy :: "json \<Rightarrow> bool" where
  "py_truthy JNull = False"
| "py_truthy (JStr s) = (s \<noteq> [])"
| "py_truthy (JInt i) = (i \<noteq> 0)"
| "py_truthy (JNum r) = (r \<noteq> 0)"
| "py_truthy (JList xs) = (xs \<noteq> [])"
| "py_truthy (JObj kvs) = (kvs \<noteq> [])"

text \<open>
  Python stores whatever value the dictionary holds in the field; the record of the model
  is typed, so reading a field checks the value's type. \<open>None\<close> stands for a value the
  typed record cannot hold and, in \<^verbatim>\<open>from_dict\<close>, for a raised exception.
\<close>

fun as_string :: "json \<Rightarrow> string option" where
  "as_string (JStr s) = Some s"
| "as_string _ = None"

fun as_int :: "json \<Rightarrow> int option" where
  "as_int (JInt i) = Some i"
| "as_int _ = None"

fun as_number :: "json \<Rightarrow> rat option" where
  "as_number (JNum r) = Some r"
| "as_number (JInt i) = Some (of_int i)"
| "as_number _ = None"

fun as_opt_int :: "json \<Rightarrow> int option option" where
  "as_opt_int JNull = Some None"
| "as_opt_int (JInt i) = Some (Some i)"
| "as_opt_int _ = None"

fun as_int_list :: "json \<Rightarrow> int list option" where
  "as_int_list (JList xs) = those (map as_int xs)"
| "as_int_list _ = None"

fun as_opt_int_list :: "json \<Rightarrow> int list option option" where
  "as_opt_int_list JNull = Some None"
| "as_opt_int_list (JList xs) = map_option Some (those (map as_int xs))"
| "as_opt_int_list _ = None"

fun as_env :: "json \<Rightarrow> (string \<times> string) list option" where
  "as_env (JObj kvs) = those (map (\<lambda>(k, v). map_option (Pair k) (as_string v)) kvs)"
| "as_env _ = None"

fun as_dict :: "json \<Rightarrow> (string \<times> json) list option" where
  "as_dict (JObj kvs) = Some kvs"
| "as_dict _ = None"

text \<open>The values of the enumeration, and \<^verbatim>\<open>TaskStatus(value)\<close>, which raises
  \<^verbatim>\<open>ValueError\<close> for any other string.\<close>

fun status_value :: "TaskStatus \<Rightarrow> string" where
  "status_value PENDING = ''pending''"
| "status_value RUNNING = ''running''"
| "status_value COMPLETED = ''completed''"
| "status_value FAILED = ''failed''"
| "status_value CANCELLED = ''cancelled''"

definition TaskStatus_of_value :: "string \<Rightarrow> TaskStatus option" where
  "TaskStatus_of_value s =
     (if s = ''pending'' then Some PENDING
      else if s = ''running'' then Some RUNNING
      else if s = ''completed'' then Some COMPLETED
      else if s = ''failed'' then Some FAILED
      else if s = ''cancelled'' then Some CANCELLED
      else None)"

definition GPURequirement_to_dict :: "GPURequirement \<Rightarrow> (string \<times> json) list" where
  "GPURequirement_to_dict r =
     [(''gpu_ids'', case gpu_ids r of None \<Rightarrow> JNull | Some ids \<Rightarrow> JList (map JInt ids)),
      (''min_free_memory_gb'', JNum (min_free_memory_gb r)),
      (''max_util_percent'', JNum (max_util_percent r)),
      (''gpu_count'', JInt (gpu_count r))]"

definition GPURequirement_from_dict :: "(string \<times> json) list \<Rightarrow> GPURequirement option" where
  "GPURequirement_from_dict data =
     do {
       ids \<leftarrow> as_opt_int_list (dict_get data ''gpu_ids'' JNull);
       min_free \<leftarrow> as_number (dict_get data ''min_free_memory_gb'' (JNum 0));
       max_util \<leftarrow> as_number (dict_get data ''max_util_percent'' (JNum 100));
       n \<leftarrow> as_int (dict_get data ''gpu_count'' (JInt 1));
       Some \<lparr>gpu_ids = ids, min_free_memory_gb = min_free, max_util_percent = max_util,
             gpu_count = n\<rparr>
     }"

text \<open>
  \<^verbatim>\<open>datetime.isoformat\<close> and \<^verbatim>\<open>datetime.fromisoformat\<close> belong to the standard library;
  they are parameters here (\<open>None\<close> from the parser is its \<^verbatim>\<open>ValueError\<close>).
\<close>

definition opt_iso :: "(datetime \<Rightarrow> string) \<Rightarrow> datetime option \<Rightarrow> json" where
  "opt_iso isoformat d = (case d of None \<Rightarrow> JNull | Some x \<Rightarrow> JStr (isoformat x))"

definition to_dict :: "(datetime \<Rightarrow> string) \<Rightarrow> Task \<Rightarrow> (string \<times> json) list" where
  "to_dict isoformat t =
     [(''id'', JStr (tid t)),
      (''name'', JStr (name t)),
      (''command'', JStr (command t)),
      (''working_dir'', JStr (working_dir t)),
      (''env'', JObj (map (\<lambda>(k, v). (k, JStr v)) (env t))),
      (''requirements'', JObj (GPURequirement_to_dict (requirements t))),
      (''status'', JStr (status_value (status t))),
      (''priority'', JInt (priority t)),
      (''created_at'', JStr (isoformat (created_at t))),
      (''started_at'', opt_iso isoformat (started_at t)),
      (''finished_at'', opt_iso isoformat (finished_at t)),
      (''assigned_gpus'', JList (map JInt (assigned_gpus t))),
      (''pid'', case pid t of None \<Rightarrow> JNull | Some p \<Rightarrow> JInt p),
      (''exit_code'', case exit_code t of None \<Rightarrow> JNull | Some c \<Rightarrow> JInt c),
      (''error_message'', JStr (error_message t)),
      (''log_file'', JStr (log_file t))]"

text \<open>\<^verbatim>\<open>datetime.fromisoformat(data[key]) if data.get(key) else default\<close>.\<close>

definition parse_time ::
  "(string \<Rightarrow> datetime option) \<Rightarrow> (string \<times> json) list \<Rightarrow> string \<Rightarrow> 'a \<Rightarrow> (datetime \<Rightarrow> 'a)
     \<Rightarrow> 'a option" where
  "parse_time fromisoformat data k dflt wrap =
     (if py_truthy (dict_get data k JNull)
      then do {
        v \<leftarrow> map_of data k;
        s \<leftarrow> as_string v;
        d \<leftarrow> fromisoformat s;
        Some (wrap d)
      }
      else Some dflt)"

definition from_dict ::
  "(string \<Rightarrow> datetime option) \<Rightarrow> datetime \<Rightarrow> (string \<times> json) list \<Rightarrow> Task option" where
  "from_dict fromisoformat now data =
     do {
       id_value \<leftarrow> map_of data ''id'';
       i \<leftarrow> as_string id_value;
       nm \<leftarrow> as_string (dict_get data ''name'' (JStr []));
       cmd \<leftarrow> as_string (dict_get data ''command'' (JStr []));
       wd \<leftarrow> as_string (dict_get data ''working_dir'' (JStr []));
       ev \<leftarrow> as_env (dict_get data ''env'' (JObj []));
       req_data \<leftarrow> as_dict (dict_get data ''requirements'' (JObj []));
       req \<leftarrow> GPURequirement_from_dict req_data;
       st_value \<leftarrow> as_string (dict_get data ''status'' (JStr ''pending''));
       st \<leftarrow> TaskStatus_of_value st_value;
       prio \<leftarrow> as_int (dict_get data ''priority'' (JInt 0));
       created \<leftarrow> parse_time fromisoformat data ''created_at'' now (\<lambda>d. d);
       started \<leftarrow> parse_time fromisoformat data ''started_at'' None Some;
       finished \<leftarrow> parse_time fromisoformat data ''finished_at'' None Some;
       gpus \<leftarrow> as_int_list (dict_get data ''assigned_gpus'' (JList []));
       p \<leftarrow> as_opt_int (dict_get data ''pid'' JNull);
       code \<leftarrow> as_opt_int (dict_get data ''exit_code'' JNull);
       msg \<leftarrow> as_string (dict_get data ''error_message'' (JStr []));
       lf \<leftarrow> as_string (dict_get data ''log_file'' (JStr []));
       Some \<lparr>tid = i, name = nm, command = cmd, working_dir = wd, env = ev,
             requirements = req, status = st, priority = prio, created_at = created,
             started_at = started, finished_at = finished, assigned_gpus = gpus,
             pid = p, exit_code = code, error_message = msg, log_file = lf\<rparr>
     }"

section \<open>Request router (server.py)\<close>

text \<open>
  A decoded request: its \<^verbatim>\<open>action\<close> (absent, or a string, as the protocol has it) and
  its parameters. A handler either returns its result or raises; \<open>Inl\<close> carries the
  text of the exception. In a response an absent key is \<open>None\<close>.
\<close>

record 'p request =
  action :: "string option"
  request_params :: 'p

record 'r response =
  success :: bool
  data :: "'r option"
  error :: "string option"

definition process_request ::
  "(string \<Rightarrow> ('p \<Rightarrow> string + 'r) option) \<Rightarrow> 'p request \<Rightarrow> 'r response" where
  "process_request handlers req =
     (case action req of
        None \<Rightarrow> \<lparr>success = False, data = None, error = Some ''Missing 'action' field''\<rparr>
      | Some a \<Rightarrow>
          if a = [] then \<lparr>success = False, data = None, error = Some ''Missing 'action' field''\<rparr>
          else (case handlers a of
                  None \<Rightarrow> \<lparr>success = False, data = None, error = Some (''Unknown action: '' @ a)\<rparr>
                | Some handler \<Rightarrow>
                    (case handler (request_params req) of
                       Inr result \<Rightarrow> \<lparr>success = True, data = Some result, error = None\<rparr>
                     | Inl msg \<Rightarrow> \<lparr>success = False, data = None, error = Some msg\<rparr>)))"

section \<open>Example inputs\<close>

text \<open>
  Inputs for the worked examples below: a device with 24 GiB free at 0\% utilisation, a
  vendor library that reports \<open>n\<close> such devices, an environment in which every spawn
  succeeds with pid 4242 and the clock reads 10 (the answers of \<^verbatim>\<open>poll\<close> and of
  \<^verbatim>\<open>os.kill(pid, 0)\<close> are given), the parameters of a plain \<^verbatim>\<open>submit\<close> request, and
  the daemon with an empty store.
\<close>

abbreviation example_device :: nvml_device where
  "example_device \<equiv>
     \<lparr>nv_name = ''gpu'', nv_total = 25769803776, nv_used = 0, nv_free = 25769803776,
      nv_util = 0, nv_temp = 40\<rparr>"

abbreviation example_nvml :: "nat \<Rightarrow> nvml" where
  "example_nvml n \<equiv>
     \<lparr>nv_init_ok = True, nv_count = Some n, nv_device = (\<lambda>k. Some example_device)\<rparr>"

abbreviation example_env :: "(int \<Rightarrow> int option) \<Rightarrow> bool \<Rightarrow> nat \<Rightarrow> environment" where
  "example_env polled alive n \<equiv>
     \<lparr>poll = polled, kill0 = (\<lambda>p. alive), killpg = (\<lambda>p. Killed), clock = (\<lambda>i. 10),
      probe = (\<lambda>i. example_nvml n), spawn = (\<lambda>t g. Spawned 4242), logs_dir = ''logs''\<rparr>"

abbreviation example_params :: submit_params where
  "example_params \<equiv>
     \<lparr>p_name = ''job'', p_command = ''true'', p_working_dir = [], p_env = [],
      p_gpu_ids = None, p_min_free_memory_gb = 0, p_max_util_percent = 100,
      p_gpu_count = 1, p_priority = 0\<rparr>"

abbreviation empty_daemon :: daemon where
  "empty_daemon \<equiv> \<lparr>store = [], running_processes = (\<lambda>i. None)\<rparr>"

section \<open>Store lemmas\<close>

lemma update_task_ids: "map tid (update_task tasks task) = map tid tasks"
  by (induction tasks) auto

lemma length_update_task: "length (update_task tasks task) = length tasks"
  by (induction tasks) auto

lemma get_task_mem: "get_task tasks i = Some t \<Longrightarrow> t \<in> set tasks \<and> tid t = i"
  by (induction tasks) (auto split: if_splits)

lemma filter_all_length: "length (filter P xs) = length xs \<Longrightarrow> filter P xs = xs"
  by (metis filter_True length_filter_less linorder_not_less order_refl)

lemma cleanup_keep_iff:
  "cleanup_keep cutoff t \<longleftrightarrow>
     \<not> (is_terminal (status t) \<and> (case finished_at t of None \<Rightarrow> True | Some f \<Rightarrow> f \<le> cutoff))"
  by (auto simp: cleanup_keep_def is_terminal_def split: option.splits)

lemma cleanup_fst_filter:
  "fst (cleanup_old_tasks now tasks days) =
     (case cleanup_cutoff now days of
        None \<Rightarrow> tasks
      | Some cutoff \<Rightarrow> filter (cleanup_keep cutoff) tasks)"
proof (cases "cleanup_cutoff now days")
  case None
  then show ?thesis by (simp add: cleanup_old_tasks_def)
next
  case (Some cutoff)
  show ?thesis
  proof (cases "length (filter (cleanup_keep cutoff) tasks) = length tasks")
    case True
    then have "filter (cleanup_keep cutoff) tasks = tasks"
      by (rule filter_all_length)
    with Some show ?thesis
      by (simp add: cleanup_old_tasks_def Let_def)
  next
    case False
    moreover have "length (filter (cleanup_keep cutoff) tasks) \<le> length tasks"
      by simp
    ultimately have "length (filter (cleanup_keep cutoff) tasks) < length tasks"
      by linarith
    with Some show ?thesis
      by (simp add: cleanup_old_tasks_def Let_def)
  qed
qed

lemma cleanup_snd:
  "snd (cleanup_old_tasks now tasks days) =
     (case cleanup_cutoff now days of
        None \<Rightarrow> None
      | Some cutoff \<Rightarrow>
          Some (int (length tasks) - int (length (filter (cleanup_keep cutoff) tasks))))"
  by (simp add: cleanup_old_tasks_def Let_def split: option.splits)

section \<open>Pending order\<close>

text \<open>
  Claim C4. \<^verbatim>\<open>get_pending_tasks\<close> returns exactly the records whose status is pending
  (as a multiset), sorted by the key \<open>(- priority, created_at)\<close>: of two entries of the
  result the earlier one has the strictly higher priority, or the same priority and a
  \<^verbatim>\<open>created_at\<close> that is not later. The order is deterministic: records with the same
  key keep the order they have in the store.
\<close>

theorem get_pending_tasks_order:
  "mset (get_pending_tasks tasks) = filter_mset (\<lambda>t. status t = PENDING) (mset tasks)
   \<and> sorted (map pending_key (get_pending_tasks tasks))
   \<and> (\<forall>i j. i < j \<and> j < length (get_pending_tasks tasks) \<longrightarrow>
         priority (get_pending_tasks tasks ! j) < priority (get_pending_tasks tasks ! i)
         \<or> (priority (get_pending_tasks tasks ! i) = priority (get_pending_tasks tasks ! j)
            \<and> created_at (get_pending_tasks tasks ! i) \<le> created_at (get_pending_tasks tasks ! j)))
   \<and> (\<forall>k. filter (\<lambda>t. pending_key t = k) (get_pending_tasks tasks)
           = filter (\<lambda>t. pending_key t = k) (filter (\<lambda>t. status t = PENDING) tasks))"
proof -
  let ?res = "get_pending_tasks tasks"
  have m: "mset ?res = filter_mset (\<lambda>t. status t = PENDING) (mset tasks)"
    by (simp add: get_pending_tasks_def)
  have s: "sorted (map pending_key ?res)"
    by (simp add: get_pending_tasks_def)
  have o: "priority (?res ! j) < priority (?res ! i)
         \<or> (priority (?res ! i) = priority (?res ! j) \<and> created_at (?res ! i) \<le> created_at (?res ! j))"
    if "i < j" "j < length ?res" for i j
  proof -
    from that have "map pending_key ?res ! i \<le> map pending_key ?res ! j"
      by (intro sorted_nth_mono[OF s]) simp_all
    with that have "pending_key (?res ! i) \<le> pending_key (?res ! j)"
      by simp
    then show ?thesis
      by (auto simp: pending_key_def less_eq_prod_def)
  qed
  have st: "filter (\<lambda>t. pending_key t = k) ?res
           = filter (\<lambda>t. pending_key t = k) (filter (\<lambda>t. status t = PENDING) tasks)" for k
    unfolding get_pending_tasks_def by (rule sort_key_stable)
  from m s o st show ?thesis by blast
qed

theorem get_pending_tasks_order_witness:
  "sorted (map pending_key (get_pending_tasks
      [Task_default ''a'' 1, Task_default ''b'' 2\<lparr>priority := 5\<rparr>,
       Task_default ''c'' 0\<lparr>status := RUNNING\<rparr>, Task_default ''d'' 3\<lparr>priority := 5\<rparr>]))
   \<and> get_pending_tasks
      [Task_default ''a'' 1, Task_default ''b'' 2\<lparr>priority := 5\<rparr>,
       Task_default ''c'' 0\<lparr>status := RUNNING\<rparr>, Task_default ''d'' 3\<lparr>priority := 5\<rparr>]
     = [Task_default ''b'' 2\<lparr>priority := 5\<rparr>, Task_default ''d'' 3\<lparr>priority := 5\<rparr>,
        Task_default ''a'' 1]"
  using get_pending_tasks_order [of
      "[Task_default ''a'' 1, Task_default ''b'' 2\<lparr>priority := 5\<rparr>,
       Task_default ''c'' 0\<lparr>status := RUNNING\<rparr>, Task_default ''d'' 3\<lparr>priority := 5\<rparr>]"]
  by (simp add: get_pending_tasks_def pending_key_def Task_default_def)

section \<open>Uniqueness of ids\<close>

text \<open>
  Claim C7, as the code has it. \<^verbatim>\<open>add_task\<close> appends whatever record it is given and
  never looks at the ids already stored, so it keeps the ids pairwise different only when
  the new id is not in the store yet. Every other store operation (update, remove, cancel
  of a pending task, cleanup) keeps the ids pairwise different unconditionally.
\<close>

theorem store_ops_keep_ids_unique:
  "distinct (map tid tasks) \<Longrightarrow>
     (tid task \<notin> set (map tid tasks) \<longrightarrow> distinct (map tid (fst (add_task tasks task))))
   \<and> distinct (map tid (update_task tasks task))
   \<and> distinct (map tid (fst (remove_task tasks i)))
   \<and> distinct (map tid (fst (cancel_task now tasks i)))
   \<and> distinct (map tid (fst (cleanup_old_tasks now tasks days)))"
  by (auto simp: add_task_def update_task_ids remove_task_def cancel_task_def
        cleanup_old_tasks_def Let_def distinct_map_filter split: option.splits)

theorem store_ops_keep_ids_unique_witness:
  "distinct (map tid [Task_default ''a'' 0])
   \<and> distinct (map tid (fst (add_task [Task_default ''a'' 0] (Task_default ''b'' 1))))
   \<and> distinct (map tid (update_task [Task_default ''a'' 0] (Task_default ''b'' 1)))
   \<and> distinct (map tid (fst (remove_task [Task_default ''a'' 0] ''a'')))
   \<and> distinct (map tid (fst (cancel_task 5 [Task_default ''a'' 0] ''a'')))
   \<and> distinct (map tid (fst (cleanup_old_tasks 5 [Task_default ''a'' 0] 7)))"
proof -
  have d: "distinct (map tid [Task_default ''a'' 0])"
    by simp
  have n: "tid (Task_default ''b'' 1) \<notin> set (map tid [Task_default ''a'' 0])"
    by (simp add: Task_default_def)
  show ?thesis
    using d n store_ops_keep_ids_unique [OF d, of "Task_default ''b'' 1" "''a''" 5 7]
    by blast
qed

text \<open>The claim as stated fails: submitting two records with the same id (the id is the
  first eight characters of a random UUID, and nothing checks it against the store) leaves
  two records with that id.\<close>

theorem add_task_duplicate_id_counterexample:
  "distinct (map tid (fst (add_task [] (Task_default ''0a1b2c3d'' 0))))
   \<and> \<not> distinct (map tid (fst (add_task (fst (add_task [] (Task_default ''0a1b2c3d'' 0)))
                                  (Task_default ''0a1b2c3d'' 1))))"
  by (simp add: add_task_def Task_default_def)

section \<open>Cleanup\<close>

text \<open>
  Claim C8, as the code has it. When \<open>now - days\<close> is a date \<^verbatim>\<open>datetime\<close> can hold,
  \<^verbatim>\<open>cleanup_old_tasks\<close> removes every record that is in a terminal status and whose
  \<^verbatim>\<open>finished_at\<close> is absent or older than \<open>now - days\<close>, keeps every record that is not
  terminal or whose \<^verbatim>\<open>finished_at\<close> is newer than \<open>now - days\<close>, leaves the records it
  keeps unchanged and in their order, and returns the number of records removed. When
  \<open>now - days\<close> is out of range (or \<open>days\<close> exceeds what \<^verbatim>\<open>timedelta\<close> accepts) the call
  raises and removes nothing. Nothing is said of a terminal record finished exactly at
  \<open>now - days\<close>.
\<close>

theorem cleanup_old_tasks_removes:
  "(cleanup_cutoff now days = None \<longleftrightarrow>
      timedelta_max_days < \<bar>days\<bar> \<or> now - days * day_us < datetime_min_us
      \<or> datetime_max_us < now - days * day_us)
   \<and> (cleanup_cutoff now days = None \<longrightarrow> cleanup_old_tasks now tasks days = (tasks, None))
   \<and> (cleanup_cutoff now days \<noteq> None \<longrightarrow>
        snd (cleanup_old_tasks now tasks days)
          = Some (int (length tasks) - int (length (fst (cleanup_old_tasks now tasks days))))
        \<and> fst (cleanup_old_tasks now tasks days)
          = filter (\<lambda>t. t \<in> set (fst (cleanup_old_tasks now tasks days))) tasks
        \<and> (\<forall>t \<in> set tasks.
             (\<not> is_terminal (status t) \<or> (\<exists>f. finished_at t = Some f \<and> now - days * day_us < f)
                \<longrightarrow> t \<in> set (fst (cleanup_old_tasks now tasks days)))
             \<and> (is_terminal (status t)
                  \<and> (finished_at t = None \<or> (\<exists>f. finished_at t = Some f \<and> f < now - days * day_us))
                \<longrightarrow> t \<notin> set (fst (cleanup_old_tasks now tasks days)))))"
proof -
  have raises: "cleanup_cutoff now days = None \<longleftrightarrow>
      timedelta_max_days < \<bar>days\<bar> \<or> now - days * day_us < datetime_min_us
      \<or> datetime_max_us < now - days * day_us"
    by (auto simp: cleanup_cutoff_def Let_def)
  have none: "cleanup_old_tasks now tasks days = (tasks, None)" if "cleanup_cutoff now days = None"
    using that by (simp add: cleanup_old_tasks_def)
  have some: "snd (cleanup_old_tasks now tasks days)
          = Some (int (length tasks) - int (length (fst (cleanup_old_tasks now tasks days))))
        \<and> fst (cleanup_old_tasks now tasks days)
          = filter (\<lambda>t. t \<in> set (fst (cleanup_old_tasks now tasks days))) tasks
        \<and> (\<forall>t \<in> set tasks.
             (\<not> is_terminal (status t) \<or> (\<exists>f. finished_at t = Some f \<and> now - days * day_us < f)
                \<longrightarrow> t \<in> set (fst (cleanup_old_tasks now tasks days)))
             \<and> (is_terminal (status t)
                  \<and> (finished_at t = None \<or> (\<exists>f. finished_at t = Some f \<and> f < now - days * day_us))
                \<longrightarrow> t \<notin> set (fst (cleanup_old_tasks now tasks days))))"
    if c: "cleanup_cutoff now days = Some cutoff" for cutoff
  proof -
    have cut: "cutoff = now - days * day_us"
      using c by (auto simp: cleanup_cutoff_def Let_def split: if_splits)
    have k: "fst (cleanup_old_tasks now tasks days) = filter (cleanup_keep cutoff) tasks"
      using c by (simp add: cleanup_fst_filter)
    have n: "snd (cleanup_old_tasks now tasks days)
          = Some (int (length tasks) - int (length (filter (cleanup_keep cutoff) tasks)))"
      using c by (simp add: cleanup_snd)
    have f: "filter (cleanup_keep cutoff) tasks
          = filter (\<lambda>t. t \<in> set (filter (cleanup_keep cutoff) tasks)) tasks"
      by (rule filter_cong) simp_all
    have m: "(\<not> is_terminal (status t) \<or> (\<exists>f. finished_at t = Some f \<and> cutoff < f)
                \<longrightarrow> cleanup_keep cutoff t)
             \<and> (is_terminal (status t)
                  \<and> (finished_at t = None \<or> (\<exists>f. finished_at t = Some f \<and> f < cutoff))
                \<longrightarrow> \<not> cleanup_keep cutoff t)" for t
      by (auto simp: cleanup_keep_iff)
    show ?thesis
      unfolding k n cut[symmetric]
      using f m by auto
  qed
  from raises none some show ?thesis
    by (cases "cleanup_cutoff now days") simp_all
qed

theorem cleanup_old_tasks_removes_witness:
  "cleanup_old_tasks (10 * day_us)
         [Task_default ''a'' 0\<lparr>status := COMPLETED, finished_at := Some day_us\<rparr>,
          Task_default ''b'' 0\<lparr>status := FAILED, finished_at := Some (9 * day_us)\<rparr>,
          Task_default ''c'' 0\<lparr>status := CANCELLED\<rparr>,
          Task_default ''d'' 0] 7
     = ([Task_default ''b'' 0\<lparr>status := FAILED, finished_at := Some (9 * day_us)\<rparr>,
         Task_default ''d'' 0], Some 2)
   \<and> cleanup_cutoff (10 * day_us) 7 = Some (3 * day_us)"
proof -
  have c: "cleanup_cutoff (10 * day_us) 7 = Some (3 * day_us)"
    by (simp add: cleanup_cutoff_def day_us_def timedelta_max_days_def datetime_min_us_def
          datetime_max_us_def Let_def)
  have e: "cleanup_old_tasks (10 * day_us)
         [Task_default ''a'' 0\<lparr>status := COMPLETED, finished_at := Some day_us\<rparr>,
          Task_default ''b'' 0\<lparr>status := FAILED, finished_at := Some (9 * day_us)\<rparr>,
          Task_default ''c'' 0\<lparr>status := CANCELLED\<rparr>,
          Task_default ''d'' 0] 7
     = ([Task_default ''b'' 0\<lparr>status := FAILED, finished_at := Some (9 * day_us)\<rparr>,
         Task_default ''d'' 0], Some 2)"
    unfolding cleanup_old_tasks_def c
    by (simp add: cleanup_keep_def Task_default_def day_us_def Let_def)
  from cleanup_old_tasks_removes [of "10 * day_us" 7
         "[Task_default ''a'' 0\<lparr>status := COMPLETED, finished_at := Some day_us\<rparr>,
          Task_default ''b'' 0\<lparr>status := FAILED, finished_at := Some (9 * day_us)\<rparr>,
          Task_default ''c'' 0\<lparr>status := CANCELLED\<rparr>,
          Task_default ''d'' 0]"] c e
  show ?thesis by simp
qed

text \<open>The claim as stated fails in two ways. A terminal record without
  \<^verbatim>\<open>finished_at\<close> is not older than the cutoff, yet the code removes it where the rule as
  the specification words it keeps it. And for a number of days that takes the cutoff out
  of the range of \<^verbatim>\<open>datetime\<close> (here a million days) the call raises: it returns
  nothing, where the claim promises the number of records removed.\<close>

theorem cleanup_old_tasks_counterexample:
  "cleanup_old_tasks (7 * day_us) [Task_default ''a'' 0\<lparr>status := COMPLETED\<rparr>] 7
     = ([], Some 1)
   \<and> spec_cleanup (7 * day_us) [Task_default ''a'' 0\<lparr>status := COMPLETED\<rparr>] 7
     = ([Task_default ''a'' 0\<lparr>status := COMPLETED\<rparr>], 0)
   \<and> cleanup_old_tasks (7 * day_us)
       [Task_default ''b'' 0\<lparr>status := FAILED, finished_at := Some 0\<rparr>] 1000000
     = ([Task_default ''b'' 0\<lparr>status := FAILED, finished_at := Some 0\<rparr>], None)
   \<and> spec_cleanup (7 * day_us)
       [Task_default ''b'' 0\<lparr>status := FAILED, finished_at := Some 0\<rparr>] 1000000
     = ([Task_default ''b'' 0\<lparr>status := FAILED, finished_at := Some 0\<rparr>], 0)"
  by (simp add: cleanup_old_tasks_def cleanup_cutoff_def spec_cleanup_def cleanup_keep_def
        Task_default_def is_terminal_def day_us_def timedelta_max_days_def datetime_min_us_def
        datetime_max_us_def Let_def)

section \<open>Matching\<close>

lemma candidates_loop_filter:
  "candidates_loop req gpus acc =
     acc @ map index (filter (\<lambda>g.
       (case gpu_ids req of None \<Rightarrow> True | Some ids \<Rightarrow> ids = [] \<or> index g \<in> set ids)
       \<and> \<not> free_memory_gb g < min_free_memory_gb req
       \<and> \<not> of_int (utilization_percent g) > max_util_percent req) gpus)"
  by (induction gpus arbitrary: acc)
     (auto simp: excluded_by_ids_def split: option.splits)

lemma those_Some: "those xs = Some ys \<Longrightarrow> xs = map Some ys"
  by (induction xs arbitrary: ys) (auto split: option.splits)

lemma get_gpu_status_index: "get_gpu_status nv i = Some g \<Longrightarrow> index g = int i"
  by (auto simp: get_gpu_status_def split: if_splits option.splits)

lemma get_all_gpu_status_index:
  assumes "get_all_gpu_status nv = Some gpus"
  shows "map index gpus = map int [0..<length gpus]"
proof -
  from assms obtain n where n: "those (map (get_gpu_status nv) [0..<n]) = Some gpus"
    by (auto simp: get_all_gpu_status_def split: option.splits)
  then have m: "map (get_gpu_status nv) [0..<n] = map Some gpus"
    by (rule those_Some)
  then have l: "length gpus = n"
    by (metis length_map length_upt diff_zero)
  have "index (gpus ! i) = int i" if "i < n" for i
  proof -
    from m that l have "get_gpu_status nv i = Some (gpus ! i)"
      by (metis nth_map nth_upt add_0 length_map length_upt diff_zero)
    then show ?thesis
      by (rule get_gpu_status_index)
  qed
  with l show ?thesis
    by (intro nth_equalityI) simp_all
qed

lemma py_slice_to_take:
  "py_slice_to xs n = (if 0 \<le> n then take (nat n) xs else take (length xs - nat (- n)) xs)"
  by (auto simp: py_slice_to_def intro!: arg_cong2[where f=take])

text \<open>
  Claim C3, as the code has it. \<^verbatim>\<open>check_requirements\<close> answers \<open>None\<close> when the probe
  fails. Otherwise it restricts the snapshot to the devices whose index is listed in
  \<^verbatim>\<open>gpu_ids\<close> when \<^verbatim>\<open>gpu_ids\<close> is present and not empty (absent or empty admits every
  device), drops the devices with \<open>free_mb / 1024 < min_free_memory_gb\<close> or
  \<open>util_percent > max_util_percent\<close>, and, when at least \<^verbatim>\<open>gpu_count\<close> devices
  survive, returns the first \<^verbatim>\<open>gpu_count\<close> surviving indices (for a negative
  \<^verbatim>\<open>gpu_count\<close>: all but the last \<open>- gpu_count\<close>); otherwise it returns \<open>None\<close>. The
  snapshot lists device \<open>i\<close> at position \<open>i\<close>, so the survivors are in device-index order.
\<close>

theorem check_requirements_match:
  "check_requirements nv req =
     (case get_all_gpu_status nv of
        None \<Rightarrow> None
      | Some gpus \<Rightarrow>
          (let survivors = map index (filter (\<lambda>g.
                 (case gpu_ids req of None \<Rightarrow> True | Some ids \<Rightarrow> ids = [] \<or> index g \<in> set ids)
                 \<and> \<not> free_memory_gb g < min_free_memory_gb req
                 \<and> \<not> of_int (utilization_percent g) > max_util_percent req) gpus)
           in if gpu_count req \<le> int (length survivors)
              then Some (if 0 \<le> gpu_count req then take (nat (gpu_count req)) survivors
                         else take (length survivors - nat (- gpu_count req)) survivors)
              else None))
   \<and> (\<forall>gpus. get_all_gpu_status nv = Some gpus \<longrightarrow> map index gpus = map int [0..<length gpus])"
  by (simp add: check_requirements_def candidates_loop_filter py_slice_to_take Let_def
        get_all_gpu_status_index split: option.splits)

theorem check_requirements_match_witness:
  "check_requirements
     \<lparr>nv_init_ok = True, nv_count = Some 3,
      nv_device = (\<lambda>i. Some \<lparr>nv_name = ''gpu'', nv_total = 25769803776, nv_used = 0,
                              nv_free = 25769803776, nv_util = (if i = 0 then 90 else 10),
                              nv_temp = 40\<rparr>)\<rparr>
     \<lparr>gpu_ids = Some [0, 2], min_free_memory_gb = 10, max_util_percent = 50, gpu_count = 1\<rparr>
   = Some [2]"
  using check_requirements_match [of
     "\<lparr>nv_init_ok = True, nv_count = Some 3,
      nv_device = (\<lambda>i. Some \<lparr>nv_name = ''gpu'', nv_total = 25769803776, nv_used = 0,
                              nv_free = 25769803776, nv_util = (if i = 0 then 90 else 10),
                              nv_temp = 40\<rparr>)\<rparr>"
     "\<lparr>gpu_ids = Some [0, 2], min_free_memory_gb = 10, max_util_percent = 50, gpu_count = 1\<rparr>"]
  by (simp add: get_all_gpu_status_def get_gpu_count_def get_gpu_status_def free_memory_gb_def
        upt_rec)

text \<open>The claim as stated fails for an empty \<^verbatim>\<open>gpu_ids\<close> list: the code's test treats
  the empty list like an absent one, so a free device is matched although no index is
  listed; the rule as the specification words it matches nothing.\<close>

theorem check_requirements_empty_ids_counterexample:
  "check_requirements
     \<lparr>nv_init_ok = True, nv_count = Some 1,
      nv_device = (\<lambda>i. Some \<lparr>nv_name = ''gpu'', nv_total = 25769803776, nv_used = 0,
                              nv_free = 25769803776, nv_util = 0, nv_temp = 40\<rparr>)\<rparr>
     \<lparr>gpu_ids = Some [], min_free_memory_gb = 0, max_util_percent = 100, gpu_count = 1\<rparr>
   = Some [0]
   \<and> spec_match
     [\<lparr>index = 0, gname = ''gpu'', total_memory_mb = 24576, used_memory_mb = 0,
       free_memory_mb = 24576, utilization_percent = 0, temperature = 40\<rparr>]
     \<lparr>gpu_ids = Some [], min_free_memory_gb = 0, max_util_percent = 100, gpu_count = 1\<rparr>
   = []
   \<and> get_all_gpu_status
     \<lparr>nv_init_ok = True, nv_count = Some 1,
      nv_device = (\<lambda>i. Some \<lparr>nv_name = ''gpu'', nv_total = 25769803776, nv_used = 0,
                              nv_free = 25769803776, nv_util = 0, nv_temp = 40\<rparr>)\<rparr>
   = Some [\<lparr>index = 0, gname = ''gpu'', total_memory_mb = 24576, used_memory_mb = 0,
       free_memory_mb = 24576, utilization_percent = 0, temperature = 40\<rparr>]"
  by (simp add: check_requirements_def get_all_gpu_status_def get_gpu_count_def
        get_gpu_status_def free_memory_gb_def excluded_by_ids_def py_slice_to_def
        spec_match_def Let_def)

section \<open>Reaping\<close>

lemma get_task_update_other:
  "tid u \<noteq> i \<Longrightarrow> get_task (update_task tasks u) i = get_task tasks i"
  by (induction tasks) auto

lemma get_task_update_same:
  "get_task tasks (tid u) = Some t \<Longrightarrow> get_task (update_task tasks u) (tid u) = Some u"
  by (induction tasks) (auto split: if_splits)

lemma get_task_distinct:
  "distinct (map tid tasks) \<Longrightarrow> t \<in> set tasks \<Longrightarrow> get_task tasks (tid t) = Some t"
  by (induction tasks) (auto simp: image_iff)

lemma tid_reaped: "tid (reaped e task code) = tid task"
  by (simp add: reaped_def Let_def)

lemma reaped_record:
  "reaped e task code =
     task\<lparr>exit_code := Some code, finished_at := Some (clock e (tid task)),
          status := (if code = 0 then COMPLETED else FAILED),
          error_message := (if code = 0 then error_message task
                            else ''Process exited with code '' @ str_int code)\<rparr>"
  by (simp add: reaped_def Let_def)

lemma check_task_local:
  "procs (tid task) = procs' (tid task) \<Longrightarrow>
     fst (check_task e procs task) = fst (check_task e procs' task)"
  by (auto simp: check_task_def split: option.splits)

lemma check_task_frame:
  "i \<noteq> tid task \<Longrightarrow> snd (check_task e procs task) i = procs i"
  by (auto simp: check_task_def split: option.splits)

lemma reap_step_store:
  "store (reap_step e d task) =
     (case fst (check_task e (running_processes d) task) of
        None \<Rightarrow> store d
      | Some code \<Rightarrow> update_task (store d) (reaped e task code))"
  by (cases "check_task e (running_processes d) task")
     (auto simp: reap_step_def split: option.splits)

lemma reap_step_procs:
  "running_processes (reap_step e d task) = snd (check_task e (running_processes d) task)"
  by (cases "check_task e (running_processes d) task")
     (auto simp: reap_step_def split: option.splits)

lemma reap_step_frame:
  "i \<noteq> tid task \<Longrightarrow>
     get_task (store (reap_step e d task)) i = get_task (store d) i
     \<and> running_processes (reap_step e d task) i = running_processes d i"
  by (auto simp: reap_step_store reap_step_procs check_task_frame get_task_update_other
        tid_reaped split: option.splits)

lemma reap_loop_frame:
  "i \<notin> tid ` set us \<Longrightarrow>
     get_task (store (foldl (reap_step e) d us)) i = get_task (store d) i
     \<and> running_processes (foldl (reap_step e) d us) i = running_processes d i"
  by (induction us arbitrary: d) (auto simp: reap_step_frame)

lemma reap_loop_ids:
  "map tid (store (foldl (reap_step e) d us)) = map tid (store d)"
  by (induction us arbitrary: d) (auto simp: reap_step_store update_task_ids split: option.splits)

lemma reap_loop_effect:
  "distinct (map tid us) \<Longrightarrow> t \<in> set us \<Longrightarrow> get_task (store d) (tid t) = Some t0 \<Longrightarrow>
     get_task (store (foldl (reap_step e) d us)) (tid t) =
       (case fst (check_task e (running_processes d) t) of
          None \<Rightarrow> Some t0
        | Some code \<Rightarrow> Some (reaped e t code))"
proof (induction us arbitrary: d)
  case Nil
  then show ?case by simp
next
  case (Cons u us)
  show ?case
  proof (cases "t = u")
    case True
    with Cons.prems have "tid u \<notin> tid ` set us" by auto
    then have "get_task (store (foldl (reap_step e) (reap_step e d u) us)) (tid u)
               = get_task (store (reap_step e d u)) (tid u)"
      using reap_loop_frame by blast
    also have "\<dots> = (case fst (check_task e (running_processes d) u) of
          None \<Rightarrow> Some t0 | Some code \<Rightarrow> Some (reaped e u code))"
      using Cons.prems(3) True get_task_update_same[of "store d" "reaped e u _" t0]
      by (auto simp: reap_step_store tid_reaped split: option.splits)
    finally show ?thesis unfolding True by simp
  next
    case False
    with Cons.prems have ne: "tid t \<noteq> tid u" and tin: "t \<in> set us" and dus: "distinct (map tid us)"
      by (auto simp: image_iff)
    have g: "get_task (store (reap_step e d u)) (tid t) = Some t0"
      using reap_step_frame[OF ne, of e d] Cons.prems(3) by simp
    have p: "running_processes (reap_step e d u) (tid t) = running_processes d (tid t)"
      using reap_step_frame[OF ne, of e d] by simp
    have "get_task (store (foldl (reap_step e) (reap_step e d u) us)) (tid t) =
       (case fst (check_task e (running_processes (reap_step e d u)) t) of
          None \<Rightarrow> Some t0 | Some code \<Rightarrow> Some (reaped e t code))"
      by (rule Cons.IH[OF dus tin g])
    also have "fst (check_task e (running_processes (reap_step e d u)) t)
             = fst (check_task e (running_processes d) t)"
      using p by (rule check_task_local[where procs = "running_processes (reap_step e d u)"
            and procs' = "running_processes d" and task = t])
    finally show ?thesis by simp
  qed
qed

text \<open>
  Claim C5. One iteration of the reap loop leaves the store as it is when \<^verbatim>\<open>check_task\<close>
  returns \<open>None\<close>; when it returns an exit code \<open>c\<close> the iteration persists (by
  \<^verbatim>\<open>update_task\<close>) the task with \<^verbatim>\<open>exit_code = c\<close>, \<^verbatim>\<open>finished_at = now\<close>, and status
  completed when \<open>c = 0\<close>, otherwise status failed and the error message
  \<^verbatim>\<open>Process exited with code c\<close>. For a store whose ids are pairwise different the whole
  reap phase therefore leaves under each id: the rewritten record when the task was
  running and had exited, and the record as it was in every other case.
\<close>

theorem reap_transitions:
  "(fst (check_task e (running_processes d) task) = None \<longrightarrow>
      store (reap_step e d task) = store d)
   \<and> (\<forall>code. fst (check_task e (running_processes d) task) = Some code \<longrightarrow>
        store (reap_step e d task) =
          update_task (store d)
            (task\<lparr>exit_code := Some code, finished_at := Some (clock e (tid task)),
                  status := (if code = 0 then COMPLETED else FAILED),
                  error_message := (if code = 0 then error_message task
                                    else ''Process exited with code '' @ str_int code)\<rparr>))
   \<and> (distinct (map tid (store d)) \<longrightarrow>
        (\<forall>t \<in> set (store d).
           get_task (store (check_running_tasks e d)) (tid t) =
             (if status t = RUNNING
              then (case fst (check_task e (running_processes d) t) of
                      None \<Rightarrow> Some t
                    | Some code \<Rightarrow>
                        Some (t\<lparr>exit_code := Some code, finished_at := Some (clock e (tid t)),
                                status := (if code = 0 then COMPLETED else FAILED),
                                error_message := (if code = 0 then error_message t
                                    else ''Process exited with code '' @ str_int code)\<rparr>))
              else Some t)))"
proof -
  have step: "store (reap_step e d task) =
     (case fst (check_task e (running_processes d) task) of
        None \<Rightarrow> store d
      | Some code \<Rightarrow> update_task (store d) (reaped e task code))"
    by (rule reap_step_store)
  have whole: "get_task (store (check_running_tasks e d)) (tid t) =
             (if status t = RUNNING
              then (case fst (check_task e (running_processes d) t) of
                      None \<Rightarrow> Some t
                    | Some code \<Rightarrow> Some (reaped e t code))
              else Some t)"
    if dist: "distinct (map tid (store d))" and tin: "t \<in> set (store d)" for t
  proof -
    have g: "get_task (store d) (tid t) = Some t"
      using dist tin by (rule get_task_distinct)
    have dr: "distinct (map tid (get_running_tasks (store d)))"
      using dist by (simp add: get_running_tasks_def distinct_map_filter)
    show ?thesis
    proof (cases "status t = RUNNING")
      case True
      then have "t \<in> set (get_running_tasks (store d))"
        using tin by (simp add: get_running_tasks_def)
      from reap_loop_effect[OF dr this g, of e] True show ?thesis
        by (simp add: check_running_tasks_def)
    next
      case False
      have "tid t \<notin> tid ` set (get_running_tasks (store d))"
      proof
        assume "tid t \<in> tid ` set (get_running_tasks (store d))"
        then obtain u where u: "u \<in> set (store d)" "status u = RUNNING" "tid u = tid t"
          by (auto simp: get_running_tasks_def)
        with dist tin have "u = t"
          by (meson distinct_map inj_onD)
        with u False show False by simp
      qed
      from reap_loop_frame[OF this, of e d] g False show ?thesis
        by (simp add: check_running_tasks_def)
    qed
  qed
  show ?thesis
    using step whole by (simp add: reaped_record split: option.splits)
qed

theorem reap_transitions_witness:
  "get_task (store (check_running_tasks
       (example_env (\<lambda>h. if h = 42 then Some 3 else None) True 1)
       \<lparr>store = [Task_default ''a'' 1\<lparr>status := RUNNING, pid := Some 42\<rparr>,
                 Task_default ''b'' 2\<lparr>status := RUNNING, pid := Some 43\<rparr>,
                 Task_default ''c'' 3],
        running_processes = (\<lambda>i. if i = ''a'' then Some 42 else None)\<rparr>)) ''a''
     = Some (Task_default ''a'' 1\<lparr>status := FAILED, pid := Some 42, exit_code := Some 3,
               finished_at := Some 10, error_message := ''Process exited with code 3''\<rparr>)
   \<and> get_task (store (check_running_tasks
       (example_env (\<lambda>h. if h = 42 then Some 3 else None) True 1)
       \<lparr>store = [Task_default ''a'' 1\<lparr>status := RUNNING, pid := Some 42\<rparr>,
                 Task_default ''b'' 2\<lparr>status := RUNNING, pid := Some 43\<rparr>,
                 Task_default ''c'' 3],
        running_processes = (\<lambda>i. if i = ''a'' then Some 42 else None)\<rparr>)) ''b''
     = Some (Task_default ''b'' 2\<lparr>status := RUNNING, pid := Some 43\<rparr>)
   \<and> get_task (store (check_running_tasks
       (example_env (\<lambda>h. if h = 42 then Some 3 else None) True 1)
       \<lparr>store = [Task_default ''a'' 1\<lparr>status := RUNNING, pid := Some 42\<rparr>,
                 Task_default ''b'' 2\<lparr>status := RUNNING, pid := Some 43\<rparr>,
                 Task_default ''c'' 3],
        running_processes = (\<lambda>i. if i = ''a'' then Some 42 else None)\<rparr>)) ''c''
     = Some (Task_default ''c'' 3)"
proof -
  let ?e = "example_env (\<lambda>h. if h = 42 then Some 3 else None) True 1"
  let ?d = "\<lparr>store = [Task_default ''a'' 1\<lparr>status := RUNNING, pid := Some 42\<rparr>,
                 Task_default ''b'' 2\<lparr>status := RUNNING, pid := Some 43\<rparr>,
                 Task_default ''c'' 3],
        running_processes = (\<lambda>i. if i = ''a'' then Some 42 else None)\<rparr>"
  have dist: "distinct (map tid (store ?d))"
    by (simp add: Task_default_def)
  from dist reap_transitions [of ?e ?d]
  have all: "\<forall>t \<in> set (store ?d).
           get_task (store (check_running_tasks ?e ?d)) (tid t) =
             (if status t = RUNNING
              then (case fst (check_task ?e (running_processes ?d) t) of
                      None \<Rightarrow> Some t
                    | Some code \<Rightarrow>
                        Some (t\<lparr>exit_code := Some code, finished_at := Some (clock ?e (tid t)),
                                status := (if code = 0 then COMPLETED else FAILED),
                                error_message := (if code = 0 then error_message t
                                    else ''Process exited with code '' @ str_int code)\<rparr>))
              else Some t)"
    by blast
  show ?thesis
    using all
    by (simp add: Task_default_def check_task_def str_int_def str_nat.simps digit_char_def)
qed

section \<open>Concurrency cap\<close>

lemma running_update_le:
  "length (get_running_tasks (update_task tasks u)) \<le> Suc (length (get_running_tasks tasks))"
  by (induction tasks) (auto simp: get_running_tasks_def)

lemma running_update_not_running:
  "status u \<noteq> RUNNING \<Longrightarrow>
     length (get_running_tasks (update_task tasks u)) \<le> length (get_running_tasks tasks)"
  by (induction tasks) (auto simp: get_running_tasks_def)

lemma status_reaped: "status (reaped e task code) \<noteq> RUNNING"
  by (simp add: reaped_def Let_def)

lemma reap_step_running:
  "length (get_running_tasks (store (reap_step e d task)))
     \<le> length (get_running_tasks (store d))"
  by (simp add: reap_step_store running_update_not_running status_reaped split: option.splits)

lemma reap_loop_running:
  "length (get_running_tasks (store (foldl (reap_step e) d us)))
     \<le> length (get_running_tasks (store d))"
proof (induction us arbitrary: d)
  case Nil
  then show ?case by simp
next
  case (Cons u us)
  have "length (get_running_tasks (store (foldl (reap_step e) (reap_step e d u) us)))
          \<le> length (get_running_tasks (store (reap_step e d u)))"
    by (rule Cons.IH)
  also have "\<dots> \<le> length (get_running_tasks (store d))"
    by (rule reap_step_running)
  finally show ?case by simp
qed

lemma admit_loop_full:
  "int (length (get_running_tasks (store d))) \<ge> m \<Longrightarrow> admit_loop e m d pending = d"
  by (cases pending) simp_all

lemma admit_loop_cap:
  "int (length (get_running_tasks (store d))) \<le> m \<Longrightarrow>
     int (length (get_running_tasks (store (admit_loop e m d pending)))) \<le> m"
proof (induction pending arbitrary: d)
  case Nil
  then show ?case by simp
next
  case (Cons task pending)
  show ?case
  proof (cases "int (length (get_running_tasks (store d))) \<ge> m")
    case True
    with Cons.prems show ?thesis by simp
  next
    case False
    then have lt: "int (length (get_running_tasks (store d))) < m" by simp
    have upd: "int (length (get_running_tasks (update_task (store d) t'))) \<le> m" for t'
      using running_update_le[of "store d" t'] lt by linarith
    show ?thesis
    proof (cases "check_requirements (probe e (tid task)) (requirements task)")
      case None
      with False Cons.IH[OF Cons.prems] show ?thesis by simp
    next
      case (Some gpus)
      show ?thesis
      proof (cases "gpus = []")
        case True
        with Some False Cons.IH[OF Cons.prems] show ?thesis by simp
      next
        case ne: False
        obtain t' procs ok where st: "start_task e (running_processes d) task gpus = (t', procs, ok)"
          by (cases "start_task e (running_processes d) task gpus") auto
        have "int (length (get_running_tasks (store (admit_loop e m
                 \<lparr>store = update_task (store d) t', running_processes = procs\<rparr> pending)))) \<le> m"
          by (rule Cons.IH) (simp add: upd)
        with Some False ne st show ?thesis by simp
      qed
    qed
  qed
qed

lemma schedule_cap:
  "int (length (get_running_tasks (store d))) \<le> m \<Longrightarrow>
     int (length (get_running_tasks (store (schedule_pending_tasks e m d)))) \<le> m"
  by (simp add: schedule_pending_tasks_def Let_def admit_loop_cap)

lemma check_running_cap:
  "int (length (get_running_tasks (store d))) \<le> m \<Longrightarrow>
     int (length (get_running_tasks (store (check_running_tasks e d)))) \<le> m"
  using reap_loop_running[of e d "get_running_tasks (store d)"]
  by (simp add: check_running_tasks_def)

lemma tick_cap:
  "int (length (get_running_tasks (store d))) \<le> m \<Longrightarrow>
     int (length (get_running_tasks (store (tick e m d)))) \<le> m"
  by (simp add: tick_def schedule_cap check_running_cap)

lemma handle_submit_running:
  "get_running_tasks (store (fst (handle_submit new_id now params d)))
     = get_running_tasks (store d)"
  by (simp add: handle_submit_def add_task_def Let_def get_running_tasks_def Task_default_def)

lemma handle_cancel_running:
  "length (get_running_tasks (store (fst (handle_cancel e d task_id))))
     \<le> length (get_running_tasks (store d))"
  by (auto simp: handle_cancel_def cancel_task_def running_update_not_running
        split: option.splits prod.splits)

lemma cleanup_running:
  "length (get_running_tasks (fst (cleanup_old_tasks now tasks days)))
     \<le> length (get_running_tasks tasks)"
proof -
  have "length (filter P (filter Q xs)) \<le> length (filter P xs)" for P Q and xs :: "Task list"
    by (induction xs) auto
  then show ?thesis
    by (simp add: cleanup_fst_filter get_running_tasks_def split: option.splits)
qed

text \<open>
  Claim C2. In every state the daemon reaches from an empty store the number of tasks
  with status running is at most \<^verbatim>\<open>max_concurrent_tasks\<close>. The code breaks this when a
  \<^verbatim>\<open>submit\<close> overlaps a tick: \<^verbatim>\<open>add_task\<close> loads the store and saves it under two
  separate file locks and without the scheduler's lock. Take a cap of 1 and a store
  with task \<open>a\<close> running and task \<open>b\<close> pending. The submit loads this store. The tick
  reaps \<open>a\<close> (completed), counts no running task, so it passes both checks of the
  admission phase, matches device 0 for \<open>b\<close> and starts it. The submit now saves what it
  loaded plus its new task, which puts \<open>a\<close> back as running. The tick's
  \<^verbatim>\<open>update_task\<close> then writes \<open>b\<close> as running into that store: two running tasks.
\<close>

theorem stale_submit_save_exceeds_cap:
  "map status (store (check_running_tasks (example_env (\<lambda>h. Some 0) True 1)
      \<lparr>store = [Task_default ''a'' 1\<lparr>status := RUNNING, pid := Some 7\<rparr>, Task_default ''b'' 2],
       running_processes = (\<lambda>i. if i = ''a'' then Some 7 else None)\<rparr>)) = [COMPLETED, PENDING]
   \<and> int (length (get_running_tasks (store (check_running_tasks
      (example_env (\<lambda>h. Some 0) True 1)
      \<lparr>store = [Task_default ''a'' 1\<lparr>status := RUNNING, pid := Some 7\<rparr>, Task_default ''b'' 2],
       running_processes = (\<lambda>i. if i = ''a'' then Some 7 else None)\<rparr>)))) < 1
   \<and> get_pending_tasks (store (check_running_tasks (example_env (\<lambda>h. Some 0) True 1)
      \<lparr>store = [Task_default ''a'' 1\<lparr>status := RUNNING, pid := Some 7\<rparr>, Task_default ''b'' 2],
       running_processes = (\<lambda>i. if i = ''a'' then Some 7 else None)\<rparr>)) = [Task_default ''b'' 2]
   \<and> check_requirements (probe (example_env (\<lambda>h. Some 0) True 1) ''b'')
        (requirements (Task_default ''b'' 2)) = Some [0]
   \<and> map status
       (update_task
          (store (fst (handle_submit ''c'' 3 example_params
      \<lparr>store = [Task_default ''a'' 1\<lparr>status := RUNNING, pid := Some 7\<rparr>, Task_default ''b'' 2],
       running_processes = (\<lambda>i. if i = ''a'' then Some 7 else None)\<rparr>)))
          (fst (start_task (example_env (\<lambda>h. Some 0) True 1)
                  (running_processes (check_running_tasks (example_env (\<lambda>h. Some 0) True 1)
      \<lparr>store = [Task_default ''a'' 1\<lparr>status := RUNNING, pid := Some 7\<rparr>, Task_default ''b'' 2],
       running_processes = (\<lambda>i. if i = ''a'' then Some 7 else None)\<rparr>))
                  (Task_default ''b'' 2) [0])))
     = [RUNNING, RUNNING, PENDING]
   \<and> int (length (get_running_tasks
       (update_task
          (store (fst (handle_submit ''c'' 3 example_params
      \<lparr>store = [Task_default ''a'' 1\<lparr>status := RUNNING, pid := Some 7\<rparr>, Task_default ''b'' 2],
       running_processes = (\<lambda>i. if i = ''a'' then Some 7 else None)\<rparr>)))
          (fst (start_task (example_env (\<lambda>h. Some 0) True 1)
                  (running_processes (check_running_tasks (example_env (\<lambda>h. Some 0) True 1)
      \<lparr>store = [Task_default ''a'' 1\<lparr>status := RUNNING, pid := Some 7\<rparr>, Task_default ''b'' 2],
       running_processes = (\<lambda>i. if i = ''a'' then Some 7 else None)\<rparr>))
                  (Task_default ''b'' 2) [0]))))) = 2"
  by (simp add: tick_def check_running_tasks_def schedule_pending_tasks_def
          handle_submit_def handle_cancel_def cancel_task_def kill_task_def add_task_def
          Task_default_def GPURequirement_default_def get_running_tasks_def reap_step_def
          check_task_def reaped_def get_pending_tasks_def pending_key_def
          check_requirements_def get_all_gpu_status_def get_gpu_count_def
          get_gpu_status_def excluded_by_ids_def free_memory_gb_def py_slice_to_def
          start_task_def task_log_path_def Let_def upt_rec)

text \<open>
  When the operations are run one after another the cap holds: for a cap that is not
  negative, in every state so reached from the empty store the number of running tasks
  is at most \<^verbatim>\<open>max_concurrent_tasks\<close>. The admission phase returns at once when the
  running count has reached the cap, and its loop checks the count again before each
  task and stops there once the cap is reached.
\<close>

theorem sequential_concurrency_cap:
  "0 \<le> max_concurrent_tasks \<Longrightarrow> sequentially_reachable max_concurrent_tasks d \<Longrightarrow>
     int (length (get_running_tasks (store d))) \<le> max_concurrent_tasks
     \<and> (\<forall>e d'. int (length (get_running_tasks (store d'))) \<ge> max_concurrent_tasks \<longrightarrow>
           schedule_pending_tasks e max_concurrent_tasks d' = d'
           \<and> (\<forall>pending. admit_loop e max_concurrent_tasks d' pending = d'))"
proof -
  assume nonneg: "0 \<le> max_concurrent_tasks" and r: "sequentially_reachable max_concurrent_tasks d"
  from r have "int (length (get_running_tasks (store d))) \<le> max_concurrent_tasks"
  proof (induction rule: sequentially_reachable.induct)
    case init
    from nonneg show ?case by (simp add: get_running_tasks_def)
  next
    case (submit d new_id now params)
    then show ?case by (simp add: handle_submit_running)
  next
    case (cancel d e task_id)
    then show ?case using handle_cancel_running[of e d task_id] by linarith
  next
    case (tick d e)
    then show ?case by (simp add: tick_cap)
  next
    case (cleanup d now days)
    then show ?case using cleanup_running[of now "store d" days] by simp
  qed
  moreover have "schedule_pending_tasks e max_concurrent_tasks d' = d'"
    if "int (length (get_running_tasks (store d'))) \<ge> max_concurrent_tasks" for e d'
    using that by (simp add: schedule_pending_tasks_def)
  ultimately show ?thesis
    by (simp add: admit_loop_full)
qed

theorem sequential_concurrency_cap_witness:
  "sequentially_reachable 2
     (tick (example_env (\<lambda>h. None) True 1) 2
        (fst (handle_submit ''c'' 3 example_params
        (fst (handle_submit ''b'' 2 example_params
        (fst (handle_submit ''a'' 1 example_params empty_daemon)))))))
   \<and> int (length (get_running_tasks (store
     (tick (example_env (\<lambda>h. None) True 1) 2
        (fst (handle_submit ''c'' 3 example_params
        (fst (handle_submit ''b'' 2 example_params
        (fst (handle_submit ''a'' 1 example_params empty_daemon)))))))))) \<le> 2
   \<and> map status (store
     (tick (example_env (\<lambda>h. None) True 1) 2
        (fst (handle_submit ''c'' 3 example_params
        (fst (handle_submit ''b'' 2 example_params
        (fst (handle_submit ''a'' 1 example_params empty_daemon)))))))) = [RUNNING, RUNNING, PENDING]"
proof -
  let ?d = "(tick (example_env (\<lambda>h. None) True 1) 2
        (fst (handle_submit ''c'' 3 example_params
        (fst (handle_submit ''b'' 2 example_params
        (fst (handle_submit ''a'' 1 example_params empty_daemon)))))))"
  have r: "sequentially_reachable 2 ?d"
    by (intro sequentially_reachable.tick sequentially_reachable.submit sequentially_reachable.init)
  have s: "map status (store ?d) = [RUNNING, RUNNING, PENDING]"
    by (simp add: tick_def check_running_tasks_def schedule_pending_tasks_def
          handle_submit_def handle_cancel_def cancel_task_def kill_task_def add_task_def
          Task_default_def GPURequirement_default_def get_running_tasks_def reap_step_def
          check_task_def reaped_def get_pending_tasks_def pending_key_def
          check_requirements_def get_all_gpu_status_def get_gpu_count_def
          get_gpu_status_def excluded_by_ids_def free_memory_gb_def py_slice_to_def
          start_task_def task_log_path_def Let_def upt_rec)
  have z: "(0::int) \<le> 2" by simp
  from sequential_concurrency_cap [OF z r] r s show ?thesis
    by simp
qed

section \<open>Terminal statuses\<close>

lemma tid_start_task:
  "start_task e procs task gpus = (t', procs', ok) \<Longrightarrow> tid t' = tid task"
  by (auto simp: start_task_def split: spawn_result.splits)

lemma admit_loop_frame:
  "i \<notin> tid ` set pending \<Longrightarrow>
     get_task (store (admit_loop e m d pending)) i = get_task (store d) i"
proof (induction pending arbitrary: d)
  case Nil
  then show ?case by simp
next
  case (Cons task pending)
  then have ne: "tid task \<noteq> i" and rest: "i \<notin> tid ` set pending"
    by auto
  have upd: "get_task (store (admit_loop e m
                 \<lparr>store = update_task (store d) t', running_processes = procs\<rparr> pending)) i
             = get_task (store d) i" if "tid t' = tid task" for t' procs
    using Cons.IH[OF rest, of "\<lparr>store = update_task (store d) t', running_processes = procs\<rparr>"]
      that ne by (simp add: get_task_update_other)
  show ?case
    using Cons.IH[OF rest, of d] upd
    by (auto split: option.splits prod.splits dest: tid_start_task)
qed

lemma get_task_append:
  "get_task tasks i = Some t \<Longrightarrow> get_task (tasks @ [x]) i = Some t"
  by (induction tasks) (auto split: if_splits)

lemma get_task_filter:
  "distinct (map tid tasks) \<Longrightarrow> get_task tasks i = Some t \<Longrightarrow>
     get_task (filter P tasks) i = (if P t then Some t else None)"
proof (induction tasks)
  case Nil
  then show ?case by simp
next
  case (Cons a tasks)
  have none: "get_task (filter P tasks) i = None" if "i \<notin> tid ` set tasks"
    using that by (induction tasks) auto
  from Cons show ?case
    by (auto simp: none split: if_splits)
qed

lemma snapshot_ids_differ:
  assumes dist: "distinct (map tid tasks)" and g: "get_task tasks i = Some t"
    and st: "status t \<noteq> s"
  shows "i \<notin> tid ` set (filter (\<lambda>u. status u = s) tasks)"
proof
  assume "i \<in> tid ` set (filter (\<lambda>u. status u = s) tasks)"
  then obtain u where u: "u \<in> set tasks" "status u = s" "tid u = i"
    by auto
  from g have t: "t \<in> set tasks" "tid t = i"
    using get_task_mem by blast+
  from dist u t have "u = t"
    by (metis distinct_map inj_onD)
  with u st show False by simp
qed

lemma check_running_tasks_terminal:
  assumes "distinct (map tid (store d))" "get_task (store d) i = Some t" "is_terminal (status t)"
  shows "get_task (store (check_running_tasks e d)) i = Some t"
proof -
  from assms(3) have "status t \<noteq> RUNNING"
    by (auto simp: is_terminal_def)
  from snapshot_ids_differ[OF assms(1,2) this]
  have "i \<notin> tid ` set (get_running_tasks (store d))"
    by (simp add: get_running_tasks_def)
  from reap_loop_frame[OF this, of e d] assms(2) show ?thesis
    by (simp add: check_running_tasks_def)
qed

lemma schedule_pending_tasks_terminal:
  assumes "distinct (map tid (store d))" "get_task (store d) i = Some t" "is_terminal (status t)"
  shows "get_task (store (schedule_pending_tasks e m d)) i = Some t"
proof -
  from assms(3) have "status t \<noteq> PENDING"
    by (auto simp: is_terminal_def)
  from snapshot_ids_differ[OF assms(1,2) this]
  have "i \<notin> tid ` set (get_pending_tasks (store d))"
    by (simp add: get_pending_tasks_def)
  from admit_loop_frame[OF this, of e m d] assms(2) show ?thesis
    by (simp add: schedule_pending_tasks_def Let_def)
qed

lemma check_running_tasks_ids:
  "map tid (store (check_running_tasks e d)) = map tid (store d)"
  by (simp add: check_running_tasks_def reap_loop_ids)

lemma tick_terminal:
  assumes "distinct (map tid (store d))" "get_task (store d) i = Some t" "is_terminal (status t)"
  shows "get_task (store (tick e m d)) i = Some t"
  unfolding tick_def
  by (rule schedule_pending_tasks_terminal)
     (simp_all add: check_running_tasks_ids check_running_tasks_terminal assms)

lemma handle_cancel_terminal:
  assumes "get_task (store d) i = Some t" "is_terminal (status t)"
  shows "get_task (store (fst (handle_cancel e d j))) i = Some t"
proof (cases "j = i")
  case True
  with assms show ?thesis
    by (auto simp: handle_cancel_def cancel_task_def is_terminal_def split: prod.splits)
next
  case False
  have "tid task \<noteq> i" if "get_task (store d) j = Some task" for task
    using get_task_mem[OF that] False by simp
  with assms(1) show ?thesis
    by (auto simp: handle_cancel_def cancel_task_def get_task_update_other
          split: option.splits prod.splits)
qed

lemma handle_submit_terminal:
  assumes "get_task (store d) i = Some t"
  shows "get_task (store (fst (handle_submit new_id now params d))) i = Some t"
  using assms by (simp add: handle_submit_def add_task_def Let_def get_task_append)

text \<open>
  Claim C1. Once a task's status is terminal (completed, failed or cancelled) no later
  operation of the daemon changes it; in particular a reap tick never sets a task that is
  already cancelled to failed or completed. The code breaks this when a \<^verbatim>\<open>cancel\<close>
  overlaps a tick: the tick holds the scheduler's lock but the cancel handler never takes
  it, and the reap phase reads the running tasks once and then works on that snapshot
  without looking at the store again. Take a store with task \<open>a\<close> running. The reap phase
  takes its snapshot; the cancel request is served, signals the child and marks the task
  cancelled; the reap loop then checks the task of its snapshot, finds the child gone and
  writes the stale record back as failed.
\<close>

theorem cancel_between_snapshot_and_reap:
  "map status (store (fst (handle_cancel (example_env (\<lambda>h. None) False 1)
       \<lparr>store = [Task_default ''a'' 1\<lparr>status := RUNNING, pid := Some 7\<rparr>],
        running_processes = (\<lambda>i. if i = ''a'' then Some 7 else None)\<rparr> ''a'')))
     = [CANCELLED]
   \<and> map status (store (foldl (reap_step (example_env (\<lambda>h. None) False 1))
       (fst (handle_cancel (example_env (\<lambda>h. None) False 1)
       \<lparr>store = [Task_default ''a'' 1\<lparr>status := RUNNING, pid := Some 7\<rparr>],
        running_processes = (\<lambda>i. if i = ''a'' then Some 7 else None)\<rparr> ''a''))
       (get_running_tasks (store
       \<lparr>store = [Task_default ''a'' 1\<lparr>status := RUNNING, pid := Some 7\<rparr>],
        running_processes = (\<lambda>i. if i = ''a'' then Some 7 else None)\<rparr>))))
     = [FAILED]"
  by (simp add: tick_def check_running_tasks_def schedule_pending_tasks_def
          handle_submit_def handle_cancel_def cancel_task_def kill_task_def add_task_def
          Task_default_def GPURequirement_default_def get_running_tasks_def reap_step_def
          check_task_def reaped_def get_pending_tasks_def pending_key_def
          check_requirements_def get_all_gpu_status_def get_gpu_count_def
          get_gpu_status_def excluded_by_ids_def free_memory_gb_def py_slice_to_def
          start_task_def task_log_path_def Let_def upt_rec)

text \<open>
  When the operations are run one after another and the ids in the store are pairwise
  different, a record in a terminal status (completed, failed, cancelled) is left exactly
  as it is by the reap phase, by the admission phase, by a whole tick, by a cancel request
  for any id and by a submit; a cleanup either leaves it as it is or removes it.
\<close>

theorem sequential_terminal_status_kept:
  "distinct (map tid (store d)) \<Longrightarrow> get_task (store d) i = Some t \<Longrightarrow> is_terminal (status t) \<Longrightarrow>
     get_task (store (check_running_tasks e d)) i = Some t
   \<and> get_task (store (schedule_pending_tasks e m d)) i = Some t
   \<and> get_task (store (tick e m d)) i = Some t
   \<and> get_task (store (fst (handle_cancel e d j))) i = Some t
   \<and> get_task (store (fst (handle_submit new_id now params d))) i = Some t
   \<and> (get_task (fst (cleanup_old_tasks now (store d) days)) i = Some t
      \<or> get_task (fst (cleanup_old_tasks now (store d) days)) i = None)"
  by (simp add: check_running_tasks_terminal schedule_pending_tasks_terminal tick_terminal
        handle_cancel_terminal handle_submit_terminal cleanup_fst_filter get_task_filter
        split: option.splits)

theorem sequential_terminal_status_kept_witness:
  "get_task (store (tick (example_env (\<lambda>h. Some 0) False 1) 2
      \<lparr>store = [Task_default ''a'' 1\<lparr>status := CANCELLED, finished_at := Some 5\<rparr>,
                Task_default ''b'' 2\<lparr>status := RUNNING, pid := Some 7\<rparr>,
                Task_default ''c'' 3],
       running_processes = (\<lambda>i. if i = ''b'' then Some 7 else None)\<rparr>)) ''a''
     = Some (Task_default ''a'' 1\<lparr>status := CANCELLED, finished_at := Some 5\<rparr>)
   \<and> map status (store (tick (example_env (\<lambda>h. Some 0) False 1) 2
      \<lparr>store = [Task_default ''a'' 1\<lparr>status := CANCELLED, finished_at := Some 5\<rparr>,
                Task_default ''b'' 2\<lparr>status := RUNNING, pid := Some 7\<rparr>,
                Task_default ''c'' 3],
       running_processes = (\<lambda>i. if i = ''b'' then Some 7 else None)\<rparr>)) = [CANCELLED, COMPLETED, RUNNING]"
proof -
  let ?e = "example_env (\<lambda>h. Some 0) False 1"
  let ?d = "\<lparr>store = [Task_default ''a'' 1\<lparr>status := CANCELLED, finished_at := Some 5\<rparr>,
                Task_default ''b'' 2\<lparr>status := RUNNING, pid := Some 7\<rparr>,
                Task_default ''c'' 3],
       running_processes = (\<lambda>i. if i = ''b'' then Some 7 else None)\<rparr>"
  have d: "distinct (map tid (store ?d))"
    by (simp add: Task_default_def)
  have g: "get_task (store ?d) ''a'' = Some (Task_default ''a'' 1\<lparr>status := CANCELLED, finished_at := Some 5\<rparr>)"
    by (simp add: Task_default_def)
  have t: "is_terminal (status (Task_default ''a'' 1\<lparr>status := CANCELLED, finished_at := Some 5\<rparr>))"
    by (simp add: is_terminal_def)
  have s: "map status (store (tick ?e 2 ?d)) = [CANCELLED, COMPLETED, RUNNING]"
    by (simp add: tick_def check_running_tasks_def schedule_pending_tasks_def
          handle_submit_def handle_cancel_def cancel_task_def kill_task_def add_task_def
          Task_default_def GPURequirement_default_def get_running_tasks_def reap_step_def
          check_task_def reaped_def get_pending_tasks_def pending_key_def
          check_requirements_def get_all_gpu_status_def get_gpu_count_def
          get_gpu_status_def excluded_by_ids_def free_memory_gb_def py_slice_to_def
          start_task_def task_log_path_def Let_def upt_rec)
  from sequential_terminal_status_kept [OF d g t, of ?e 2] s
  show ?thesis by simp
qed

section \<open>Requirements that ask for no device\<close>

lemma check_requirements_zero:
  "gpu_count req = 0 \<Longrightarrow>
     check_requirements nv req = (case get_all_gpu_status nv of None \<Rightarrow> None | Some gpus \<Rightarrow> Some [])"
  by (simp add: check_requirements_def py_slice_to_def Let_def split: option.splits)

lemma check_requirements_negative:
  "gpu_count req < 0 \<Longrightarrow> get_all_gpu_status nv = Some gpus \<Longrightarrow>
     int (length gpus) \<le> - gpu_count req \<Longrightarrow> check_requirements nv req = Some []"
proof -
  assume n: "gpu_count req < 0" and g: "get_all_gpu_status nv = Some gpus"
    and l: "int (length gpus) \<le> - gpu_count req"
  have "length (candidates_loop req gpus []) \<le> length gpus"
    by (simp add: candidates_loop_filter)
  with l have "int (length (candidates_loop req gpus [])) + gpu_count req \<le> 0"
    by linarith
  with n g show ?thesis
    by (simp add: check_requirements_def py_slice_to_def Let_def)
qed

lemma admit_loop_skip:
  "gpu_count (requirements task) = 0 \<Longrightarrow>
     admit_loop e m d (task # pending) =
       (if int (length (get_running_tasks (store d))) \<ge> m then d
        else admit_loop e m d pending)"
  by (simp add: check_requirements_zero split: option.splits)

lemma admit_loop_frame_zero:
  "\<forall>u \<in> set pending. tid u = i \<longrightarrow> gpu_count (requirements u) = 0 \<Longrightarrow>
     get_task (store (admit_loop e m d pending)) i = get_task (store d) i"
proof (induction pending arbitrary: d)
  case Nil
  then show ?case by simp
next
  case (Cons task pending)
  then have rest: "\<forall>u \<in> set pending. tid u = i \<longrightarrow> gpu_count (requirements u) = 0"
    by simp
  show ?case
  proof (cases "tid task = i")
    case True
    with Cons.prems have "gpu_count (requirements task) = 0" by simp
    then show ?thesis
      using Cons.IH[OF rest, of d] by (simp add: admit_loop_skip del: admit_loop.simps)
  next
    case ne: False
    have upd: "get_task (store (admit_loop e m
                 \<lparr>store = update_task (store d) t', running_processes = procs\<rparr> pending)) i
             = get_task (store d) i" if "tid t' = tid task" for t' procs
      using Cons.IH[OF rest, of "\<lparr>store = update_task (store d) t', running_processes = procs\<rparr>"]
        that ne by (simp add: get_task_update_other)
    show ?thesis
      using Cons.IH[OF rest, of d] upd
      by (auto split: option.splits prod.splits dest: tid_start_task)
  qed
qed

lemma tick_keeps_zero_count_task:
  assumes z: "gpu_count (requirements task) = 0" and dist: "distinct (map tid (store d))"
    and tin: "task \<in> set (store d)" and st: "status task = PENDING"
  shows "get_task (store (tick e m d)) (tid task) = Some task"
proof -
  let ?d1 = "check_running_tasks e d"
  have g: "get_task (store d) (tid task) = Some task"
    using dist tin by (rule get_task_distinct)
  from st have "status task \<noteq> RUNNING" by simp
  from snapshot_ids_differ[OF dist g this]
  have "tid task \<notin> tid ` set (get_running_tasks (store d))"
    by (simp add: get_running_tasks_def)
  from reap_loop_frame[OF this, of e d] g
  have g1: "get_task (store ?d1) (tid task) = Some task"
    by (simp add: check_running_tasks_def)
  have d1: "distinct (map tid (store ?d1))"
    using dist by (simp add: check_running_tasks_ids)
  have "\<forall>u \<in> set (get_pending_tasks (store ?d1)).
          tid u = tid task \<longrightarrow> gpu_count (requirements u) = 0"
  proof (intro ballI impI)
    fix u assume "u \<in> set (get_pending_tasks (store ?d1))" and eq: "tid u = tid task"
    then have "u \<in> set (store ?d1)"
      by (simp add: get_pending_tasks_def)
    with d1 have "get_task (store ?d1) (tid u) = Some u"
      by (rule get_task_distinct)
    with g1 eq have "u = task" by (metis option.inject)
    with z show "gpu_count (requirements u) = 0" by simp
  qed
  from admit_loop_frame_zero[OF this, of e m ?d1] g1 show ?thesis
    by (simp add: tick_def schedule_pending_tasks_def Let_def)
qed

text \<open>
  Claim C10, as the code has it. For a requirement with \<^verbatim>\<open>gpu_count = 0\<close> and every
  snapshot the probe delivers (the empty one included), \<^verbatim>\<open>check_requirements\<close> returns
  the empty list rather than \<open>None\<close>; for a negative \<^verbatim>\<open>gpu_count\<close> it does so when the
  snapshot has at most \<open>- gpu_count\<close> devices. The admission loop treats the empty list
  like no match: it passes over a task with \<^verbatim>\<open>gpu_count = 0\<close> without starting or
  rewriting it. So in a store whose ids are pairwise different a pending task with
  \<^verbatim>\<open>gpu_count = 0\<close> is the same pending record after every tick.
\<close>

theorem zero_gpu_count_stays_pending:
  "(\<forall>gpus. get_all_gpu_status nv = Some gpus
        \<and> (gpu_count req = 0 \<or> (gpu_count req < 0 \<and> int (length gpus) \<le> - gpu_count req))
      \<longrightarrow> check_requirements nv req = Some [])
   \<and> (gpu_count (requirements task) = 0 \<longrightarrow>
        admit_loop e m d (task # pending) =
          (if int (length (get_running_tasks (store d))) \<ge> m then d
           else admit_loop e m d pending))
   \<and> (gpu_count (requirements task) = 0 \<and> distinct (map tid (store d))
        \<and> task \<in> set (store d) \<and> status task = PENDING
      \<longrightarrow> get_task (store (tick e m d)) (tid task) = Some task)"
  using admit_loop_skip[of task e m d pending] tick_keeps_zero_count_task[of task d e m]
  by (auto simp: check_requirements_zero check_requirements_negative simp del: admit_loop.simps)

theorem zero_gpu_count_stays_pending_witness:
  "check_requirements (example_nvml 2)
      \<lparr>gpu_ids = None, min_free_memory_gb = 0, max_util_percent = 100, gpu_count = 0\<rparr> = Some []
   \<and> get_task (store (tick (example_env (\<lambda>h. None) True 2) 4
        \<lparr>store = [(Task_default ''a'' 1\<lparr>requirements :=
          \<lparr>gpu_ids = None, min_free_memory_gb = 0, max_util_percent = 100, gpu_count = 0\<rparr>\<rparr>)],
         running_processes = (\<lambda>i. None)\<rparr>)) ''a''
     = Some (Task_default ''a'' 1\<lparr>requirements :=
          \<lparr>gpu_ids = None, min_free_memory_gb = 0, max_util_percent = 100, gpu_count = 0\<rparr>\<rparr>)"
proof -
  have g: "get_all_gpu_status (example_nvml 2) = Some
       [\<lparr>index = 0, gname = ''gpu'', total_memory_mb = 24576, used_memory_mb = 0,
         free_memory_mb = 24576, utilization_percent = 0, temperature = 40\<rparr>,
        \<lparr>index = 1, gname = ''gpu'', total_memory_mb = 24576, used_memory_mb = 0,
         free_memory_mb = 24576, utilization_percent = 0, temperature = 40\<rparr>]"
    by (simp add: get_all_gpu_status_def get_gpu_count_def get_gpu_status_def upt_rec)
  from g zero_gpu_count_stays_pending [of "example_nvml 2"
      "\<lparr>gpu_ids = None, min_free_memory_gb = 0, max_util_percent = 100, gpu_count = 0\<rparr>"
      "(Task_default ''a'' 1\<lparr>requirements :=
          \<lparr>gpu_ids = None, min_free_memory_gb = 0, max_util_percent = 100, gpu_count = 0\<rparr>\<rparr>)"
      "example_env (\<lambda>h. None) True 2" 4
      "\<lparr>store = [(Task_default ''a'' 1\<lparr>requirements :=
          \<lparr>gpu_ids = None, min_free_memory_gb = 0, max_util_percent = 100, gpu_count = 0\<rparr>\<rparr>)],
         running_processes = (\<lambda>i. None)\<rparr>" "[]"]
  show ?thesis
    by (simp add: Task_default_def)
qed

text \<open>The claim as stated fails for a negative \<^verbatim>\<open>gpu_count\<close>: the slice
  \<^verbatim>\<open>candidates[:-1]\<close> of two qualifying devices is the first of them, a non-empty list,
  and the tick starts the task on it.\<close>

theorem negative_gpu_count_admitted_counterexample:
  "check_requirements (example_nvml 2)
      \<lparr>gpu_ids = None, min_free_memory_gb = 0, max_util_percent = 100, gpu_count = - 1\<rparr>
     = Some [0]
   \<and> map status (store (tick (example_env (\<lambda>h. None) True 2) 4
        \<lparr>store = [(Task_default ''a'' 1\<lparr>requirements :=
          \<lparr>gpu_ids = None, min_free_memory_gb = 0, max_util_percent = 100, gpu_count = - 1\<rparr>\<rparr>)],
         running_processes = (\<lambda>i. None)\<rparr>)) = [RUNNING]
   \<and> map assigned_gpus (store (tick (example_env (\<lambda>h. None) True 2) 4
        \<lparr>store = [(Task_default ''a'' 1\<lparr>requirements :=
          \<lparr>gpu_ids = None, min_free_memory_gb = 0, max_util_percent = 100, gpu_count = - 1\<rparr>\<rparr>)],
         running_processes = (\<lambda>i. None)\<rparr>)) = [[0]]"
  by (simp add: tick_def check_running_tasks_def schedule_pending_tasks_def
          handle_submit_def handle_cancel_def cancel_task_def kill_task_def add_task_def
          Task_default_def GPURequirement_default_def get_running_tasks_def reap_step_def
          check_task_def reaped_def get_pending_tasks_def pending_key_def
          check_requirements_def get_all_gpu_status_def get_gpu_count_def
          get_gpu_status_def excluded_by_ids_def free_memory_gb_def py_slice_to_def
          start_task_def task_log_path_def Let_def upt_rec)

section \<open>Round trip\<close>

lemma as_int_list_roundtrip: "as_int_list (JList (map JInt xs)) = Some xs"
proof -
  have "those (map as_int (map JInt ys)) = Some ys" for ys
    by (induction ys) auto
  then show ?thesis by (simp del: map_map)
qed

lemma as_opt_int_list_roundtrip:
  "as_opt_int_list (case ids of None \<Rightarrow> JNull | Some xs \<Rightarrow> JList (map JInt xs)) = Some ids"
proof -
  have "those (map as_int (map JInt ys)) = Some ys" for ys
    by (induction ys) auto
  then show ?thesis by (cases ids) (simp_all del: map_map)
qed

lemma as_opt_int_roundtrip:
  "as_opt_int (case p of None \<Rightarrow> JNull | Some i \<Rightarrow> JInt i) = Some p"
  by (cases p) simp_all

lemma as_env_roundtrip: "as_env (JObj (map (\<lambda>(k, v). (k, JStr v)) kvs)) = Some kvs"
proof -
  have "those (map (\<lambda>(k, v). map_option (Pair k) (as_string v))
                 (map (\<lambda>(k, v). (k, JStr v)) ys)) = Some ys" for ys
    by (induction ys) auto
  then show ?thesis by (simp del: map_map)
qed

lemma TaskStatus_roundtrip: "TaskStatus_of_value (status_value st) = Some st"
  by (cases st) (simp_all add: TaskStatus_of_value_def)

lemma GPURequirement_roundtrip:
  "GPURequirement_from_dict (GPURequirement_to_dict r) = Some r"
  by (simp add: GPURequirement_from_dict_def GPURequirement_to_dict_def dict_get_def
        as_opt_int_list_roundtrip del: as_opt_int_list.simps)

text \<open>
  Claim C6. Converting a task to its dictionary with \<^verbatim>\<open>to_dict\<close> and reading the
  dictionary back with \<^verbatim>\<open>from_dict\<close> gives the task again, equal on all sixteen
  persisted fields, provided the standard library's \<^verbatim>\<open>fromisoformat\<close> reads back what
  \<^verbatim>\<open>isoformat\<close> wrote for the task's own timestamps and that text is not empty.
\<close>

theorem to_dict_from_dict_roundtrip:
  assumes c: "fromisoformat (isoformat (created_at t)) = Some (created_at t)"
      and cn: "isoformat (created_at t) \<noteq> []"
      and s: "\<forall>d. started_at t = Some d \<longrightarrow> fromisoformat (isoformat d) = Some d \<and> isoformat d \<noteq> []"
      and f: "\<forall>d. finished_at t = Some d \<longrightarrow> fromisoformat (isoformat d) = Some d \<and> isoformat d \<noteq> []"
  shows "from_dict fromisoformat now (to_dict isoformat t) = Some t"
proof -
  have pc: "parse_time fromisoformat (to_dict isoformat t) ''created_at'' now (\<lambda>d. d)
              = Some (created_at t)"
    using c cn by (simp add: parse_time_def dict_get_def to_dict_def)
  have ps: "parse_time fromisoformat (to_dict isoformat t) ''started_at'' None Some
              = Some (started_at t)"
    using s by (cases "started_at t") (simp_all add: parse_time_def dict_get_def to_dict_def opt_iso_def)
  have pf: "parse_time fromisoformat (to_dict isoformat t) ''finished_at'' None Some
              = Some (finished_at t)"
    using f by (cases "finished_at t") (simp_all add: parse_time_def dict_get_def to_dict_def opt_iso_def)
  have g: "dict_get (to_dict isoformat t) k dflt =
        (case map_of (to_dict isoformat t) k of None \<Rightarrow> dflt | Some v \<Rightarrow> v)" for k dflt
    by (simp add: dict_get_def)
  show ?thesis
    unfolding from_dict_def pc ps pf g
    by (simp add: to_dict_def as_env_roundtrip as_int_list_roundtrip as_opt_int_roundtrip
          GPURequirement_roundtrip TaskStatus_roundtrip
          del: as_env.simps as_int_list.simps as_opt_int.simps)
qed

theorem to_dict_from_dict_roundtrip_witness:
  "from_dict
     (\<lambda>s. if s = ''1970-01-01T00:00:00'' then Some 0
            else if s = ''1970-01-01T00:00:01'' then Some 1000000 else None) 5
     (to_dict
        (\<lambda>d. if d = 0 then ''1970-01-01T00:00:00'' else ''1970-01-01T00:00:01'')
        (Task_default ''0a1b2c3d'' 0\<lparr>command := ''true'', env := [(''SEED'', ''1'')],
         status := RUNNING, started_at := Some 1000000, assigned_gpus := [0, 1],
         pid := Some 4242, log_file := ''logs/task_0a1b2c3d.log''\<rparr>))
   = Some (Task_default ''0a1b2c3d'' 0\<lparr>command := ''true'', env := [(''SEED'', ''1'')],
         status := RUNNING, started_at := Some 1000000, assigned_gpus := [0, 1],
         pid := Some 4242, log_file := ''logs/task_0a1b2c3d.log''\<rparr>)"
  by (rule to_dict_from_dict_roundtrip) (simp_all add: Task_default_def)

section \<open>Unknown actions\<close>

text \<open>
  Claim C9, as the code has it. For a request whose action is present and names no
  registered handler, the response has \<^verbatim>\<open>success\<close> false, no data, and the error
  \<^verbatim>\<open>Unknown action: \<close> followed by the action; unless the action is the empty string,
  which the router reports as a missing action field.
\<close>

theorem unknown_action_response:
  "action req = Some a \<Longrightarrow> handlers a = None \<Longrightarrow>
     process_request handlers req =
       (if a = [] then \<lparr>success = False, data = None, error = Some ''Missing 'action' field''\<rparr>
        else \<lparr>success = False, data = None, error = Some (''Unknown action: '' @ a)\<rparr>)"
  by (simp add: process_request_def)

theorem unknown_action_response_witness:
  "process_request
     (\<lambda>a. if a \<in> set [''submit'', ''status'', ''list'', ''cancel'', ''logs'']
          then Some (\<lambda>p. Inr p) else None)
     \<lparr>action = Some ''pause'', request_params = ()\<rparr>
   = \<lparr>success = False, data = None, error = Some ''Unknown action: pause''\<rparr>"
  using unknown_action_response [of "\<lparr>action = Some ''pause'', request_params = ()\<rparr>" "''pause''"
     "(\<lambda>a. if a \<in> set [''submit'', ''status'', ''list'', ''cancel'', ''logs'']
          then Some (\<lambda>p. Inr p) else None)"]
  by simp

text \<open>The claim as stated fails: the error text names the action, it is not the bare
  \<^verbatim>\<open>Unknown action\<close>.\<close>

theorem unknown_action_counterexample:
  "error (process_request
     (\<lambda>a. if a \<in> set [''submit'', ''status'', ''list'', ''cancel'', ''logs'']
          then Some (\<lambda>p. Inr p) else None)
     \<lparr>action = Some ''pause'', request_params = ()\<rparr>) = Some ''Unknown action: pause''
   \<and> error (process_request
     (\<lambda>a. if a \<in> set [''submit'', ''status'', ''list'', ''cancel'', ''logs'']
          then Some (\<lambda>p. Inr p) else None)
     \<lparr>action = Some ''pause'', request_params = ()\<rparr>) \<noteq> Some ''Unknown action''"
  by (simp add: process_request_def)

end
